theory Spec2Isabelle
  imports Complex_Main
begin

section \<open>Gesture kinds and constants (tpswipe.go, lines 22-43)\<close>

datatype gestureType =
  UNKNOWN | SWIPE_UP | SWIPE_DOWN | SWIPE_LEFT | SWIPE_RIGHT | PINCH | SPREAD

definition DIST_SWIPE :: int where "DIST_SWIPE = 1100"
definition DIST_OTHER :: int where "DIST_OTHER = 500"
definition CHECK_DELAY :: int where "CHECK_DELAY = 50"

text \<open>
  Times are nanoseconds on one axis (\<open>time.Time\<close>), durations are differences of
  times (\<open>time.Duration\<close>, nanoseconds). Go saturates a duration at the 64-bit range;
  the program only compares durations with 50 ms and 220 ms, which saturation does not
  change, so durations are unbounded integers here.
\<close>

definition Millisecond :: int where "Millisecond = 1000000"

record Gesture =
  GestureType :: gestureType
  FingerCount :: int

datatype error = IndexOutOfRange

section \<open>Helper functions (tpswipe.go, lines 425-452)\<close>

text \<open>
  \<open>calculateDistance\<close> works in float64:
  \<open>int(math.Sqrt(math.Pow(float64(x-x0), 2) + math.Pow(float64(y-y0), 2)))\<close>.
  A float64 operation returns the exact result rounded to the nearest number with a
  53-bit significand, ties to the even significand: \<open>roundFloat64\<close>, with
  \<open>roundToEven\<close> rounding the significand scaled to an integer and
  \<open>2 powr (\<lfloor>log 2 \<bar>r\<bar>\<rfloor> - 52)\<close> the unit in its last place. The conversion
  \<open>float64(v)\<close>, the addition and \<open>math.Sqrt\<close> round once; \<open>math.Pow(x, 2)\<close>
  squares the significand with one rounding and scales by a power of two, which is the
  square rounded once. The conversion to \<open>int\<close> drops the fraction (rounds towards
  zero). The exponent range of float64 is not modelled: the values here, built from
  differences of 32-bit coordinates, are 0 or between 1 and \<open>2 ^ 66\<close>. Go's \<open>int\<close>
  is taken as unbounded: the coordinates are 32-bit event values held in 64-bit
  integers, so no difference of two of them wraps.
\<close>

definition truncateToInt :: "real \<Rightarrow> int" where
  "truncateToInt r = (if 0 \<le> r then \<lfloor>r\<rfloor> else \<lceil>r\<rceil>)"

definition roundToEven :: "real \<Rightarrow> int" where
  "roundToEven q =
     (let n = \<lfloor>q\<rfloor>; f = q - of_int n
      in if f < 1 / 2 then n else if 1 / 2 < f then n + 1 else if even n then n else n + 1)"

definition roundFloat64 :: "real \<Rightarrow> real" where
  "roundFloat64 r =
     (if r = 0 then 0
      else (let u = 2 powr of_int (\<lfloor>log 2 \<bar>r\<bar>\<rfloor> - 52)
            in of_int (roundToEven (r / u)) * u))"

definition float64 :: "int \<Rightarrow> real" where
  "float64 v = roundFloat64 (of_int v)"

definition mathPow2 :: "real \<Rightarrow> real" where
  "mathPow2 x = roundFloat64 (x * x)"

definition mathSqrt :: "real \<Rightarrow> real" where
  "mathSqrt x = roundFloat64 (sqrt x)"

definition calculateDistance :: "int \<Rightarrow> int \<Rightarrow> int \<Rightarrow> int \<Rightarrow> int" where
  "calculateDistance x0 y0 x y =
     truncateToInt (mathSqrt (roundFloat64 (mathPow2 (float64 (x - x0)) + mathPow2 (float64 (y - y0)))))"

text \<open>
  The loop of \<open>calculateCircumference\<close>: \<open>p0\<close> is the previous point, \<open>tot\<close> the
  running sum (\<open>total\<close> in the source); it returns the sum and the last point visited.
\<close>

fun sumDistances :: "int \<times> int \<Rightarrow> (int \<times> int) list \<Rightarrow> int \<Rightarrow> int \<times> (int \<times> int)" where
  "sumDistances p0 [] tot = (tot, p0)"
| "sumDistances p0 (p # ps) tot =
     sumDistances p ps (tot + calculateDistance (fst p0) (snd p0) (fst p) (snd p))"

text \<open>
  \<open>points[0]\<close> on an empty slice is a run-time panic (index out of range); a slice of
  exactly two points takes the early return.
\<close>

definition calculateCircumference :: "(int \<times> int) list \<Rightarrow> error + int" where
  "calculateCircumference points =
     (if length points = 2
      then Inr (calculateDistance (fst (points ! 0)) (snd (points ! 0))
                                  (fst (points ! 1)) (snd (points ! 1)))
      else (case points of
              [] \<Rightarrow> Inl IndexOutOfRange
            | first # _ \<Rightarrow>
                (let (tot, p0) = sumDistances first points 0
                 in Inr (tot + calculateDistance (fst first) (snd first) (fst p0) (snd p0)))))"

section \<open>The clock\<close>

text \<open>
  \<open>time.Now()\<close> and \<open>time.Since\<close> read the system clock. The clock is the sequence
  of the values it returns: \<open>clk k\<close> is the \<open>k\<close>-th reading. Every function that reads
  the clock takes the number \<open>k\<close> of readings made so far and returns, beside its
  result, the number of readings after it.
\<close>

type_synonym clock = "nat \<Rightarrow> int"

section \<open>Finger (tpswipe.go, lines 55-185)\<close>

record Finger =
  FirstX :: int
  FirstY :: int
  LastX :: int
  LastY :: int
  HasPositionX :: bool
  HasPositionY :: bool
  IsActive :: bool
  ActivationTime :: int

definition reset :: "clock \<Rightarrow> nat \<Rightarrow> Finger \<Rightarrow> Finger \<times> nat" where
  "reset clk k finger =
     (finger\<lparr>ActivationTime := clk k, HasPositionX := False, HasPositionY := False\<rparr>, Suc k)"

definition activate :: "clock \<Rightarrow> nat \<Rightarrow> Finger \<Rightarrow> Finger \<times> nat" where
  "activate clk k finger = reset clk k (finger\<lparr>IsActive := True\<rparr>)"

definition deactivate :: "Finger \<Rightarrow> Finger" where
  "deactivate finger = finger\<lparr>IsActive := False\<rparr>"

definition setPositionX :: "int \<Rightarrow> Finger \<Rightarrow> Finger" where
  "setPositionX x finger =
     (let finger1 = (if \<not> HasPositionX finger
                     then finger\<lparr>FirstX := x, HasPositionX := True\<rparr> else finger)
      in finger1\<lparr>LastX := x\<rparr>)"

definition setPositionY :: "int \<Rightarrow> Finger \<Rightarrow> Finger" where
  "setPositionY y finger =
     (let finger1 = (if \<not> HasPositionY finger
                     then finger\<lparr>FirstY := y, HasPositionY := True\<rparr> else finger)
      in finger1\<lparr>LastY := y\<rparr>)"

definition hasPosition :: "Finger \<Rightarrow> bool" where
  "hasPosition finger = (HasPositionX finger \<and> HasPositionY finger)"

text \<open>
  \<open>getAngle\<close> works in float64: \<open>int(math.Atan2(dy, dx) * 180.0 / math.Pi)\<close>. The
  model takes the arithmetic over the reals: \<open>atan2\<close> is the two-argument arctangent
  with the values of \<open>math.Atan2\<close> on the axes and at the origin, and the conversion
  to \<open>int\<close> drops the fraction (rounds towards zero).
\<close>

definition atan2 :: "real \<Rightarrow> real \<Rightarrow> real" where
  "atan2 y x =
     (if 0 < x then arctan (y / x)
      else if x < 0 then (if 0 \<le> y then arctan (y / x) + pi else arctan (y / x) - pi)
      else if 0 < y then pi / 2
      else if y < 0 then - (pi / 2)
      else 0)"

definition getAngle :: "Finger \<Rightarrow> int" where
  "getAngle finger =
     (if \<not> hasPosition finger then 0
      else (let dx = LastX finger - FirstX finger;
                dy = - (LastY finger - FirstY finger);
                angle = truncateToInt (atan2 (real_of_int dy) (real_of_int dx) * 180 / pi)
            in if angle < 0 then 360 + angle else angle))"

definition getDirection :: "Finger \<Rightarrow> gestureType" where
  "getDirection finger =
     (let angle = getAngle finger
      in if angle \<ge> 45 \<and> angle \<le> 135 then SWIPE_UP
         else if angle \<ge> 135 \<and> angle \<le> 225 then SWIPE_LEFT
         else if angle \<ge> 225 \<and> angle \<le> 315 then SWIPE_DOWN
         else if angle \<ge> 315 \<or> angle \<le> 45 then SWIPE_RIGHT
         else UNKNOWN)"

definition getDistance :: "Finger \<Rightarrow> int" where
  "getDistance finger =
     (if \<not> hasPosition finger then 0
      else calculateDistance (LastX finger) (LastY finger) (FirstX finger) (FirstY finger))"

text \<open>The clock is read only when the finger has a position.\<close>

definition hasSwiped :: "clock \<Rightarrow> nat \<Rightarrow> int \<Rightarrow> Finger \<Rightarrow> bool \<times> nat" where
  "hasSwiped clk k distanceThreshold finger =
     (if \<not> hasPosition finger then (False, k)
      else if clk k - ActivationTime finger < CHECK_DELAY * Millisecond then (False, Suc k)
      else (getDistance finger > distanceThreshold, Suc k))"

section \<open>Input events\<close>

text \<open>
  \<open>evdev.InputEvent\<close> of the evdev library: a 16-bit type, a 16-bit code and a signed
  32-bit value, which the handler reads through \<open>int(event.Value)\<close>. The constants are
  those of the Linux input event codes.
\<close>

record InputEvent =
  Type :: nat
  Code :: nat
  Value :: int

definition EV_SYN :: nat where "EV_SYN = 0"
definition EV_ABS :: nat where "EV_ABS = 3"
definition SYN_REPORT :: nat where "SYN_REPORT = 0"
definition ABS_MT_SLOT :: nat where "ABS_MT_SLOT = 47"
definition ABS_MT_POSITION_X :: nat where "ABS_MT_POSITION_X = 53"
definition ABS_MT_POSITION_Y :: nat where "ABS_MT_POSITION_Y = 54"
definition ABS_MT_TRACKING_ID :: nat where "ABS_MT_TRACKING_ID = 57"

section \<open>EventHandler (tpswipe.go, lines 190-402)\<close>

text \<open>
  The array \<open>fingers [5]Finger\<close> is a function on the indices 0..4, read and written
  there only; an index outside the array is a run-time panic. The channel \<open>Gestures\<close>
  is the output of the handler: each function that can send on it returns what it sent.
\<close>

record EventHandler =
  fingers :: "nat \<Rightarrow> Finger"
  currentSlot :: int
  lastGesture :: gestureType
  fingerCount :: int
  checkTimer :: int
  suspend :: bool
  configuredFingers :: "int \<rightharpoonup> bool"

definition slots :: "nat list" where
  "slots = [0, 1, 2, 3, 4]"

definition inArray :: "int \<Rightarrow> bool" where
  "inArray i = (0 \<le> i \<and> i < 5)"

text \<open>
  The handler as \<open>main\<close> creates it: every field but \<open>configuredFingers\<close> has its
  zero value. The zero \<open>time.Time\<close> is taken as the origin of the time axis.
\<close>

definition zeroFinger :: Finger where
  "zeroFinger = \<lparr>FirstX = 0, FirstY = 0, LastX = 0, LastY = 0, HasPositionX = False,
                  HasPositionY = False, IsActive = False, ActivationTime = 0\<rparr>"

definition newEventHandler :: "(int \<rightharpoonup> bool) \<Rightarrow> EventHandler" where
  "newEventHandler cf =
     \<lparr>fingers = (\<lambda>i. zeroFinger), currentSlot = 0, lastGesture = UNKNOWN, fingerCount = 0,
      checkTimer = 0, suspend = False, configuredFingers = cf\<rparr>"

fun resetEach :: "clock \<Rightarrow> nat \<Rightarrow> nat list \<Rightarrow> (nat \<Rightarrow> Finger) \<Rightarrow> (nat \<Rightarrow> Finger) \<times> nat" where
  "resetEach clk k [] fs = (fs, k)"
| "resetEach clk k (i # rest) fs =
     (let (finger, k1) = reset clk k (fs i) in resetEach clk k1 rest (fs(i := finger)))"

definition resetFingers :: "clock \<Rightarrow> nat \<Rightarrow> EventHandler \<Rightarrow> EventHandler \<times> nat" where
  "resetFingers clk k handler =
     (let (fs, k1) = resetEach clk k slots (fingers handler)
      in (handler\<lparr>fingers := fs, checkTimer := clk k1\<rparr>, Suc k1))"

text \<open>
  The loop of \<open>calculateGesture\<close> over the fingers: \<open>None\<close> is the early return of
  \<open>UNKNOWN\<close>, otherwise the start and end positions collected.
\<close>

fun collectPositions ::
  "clock \<Rightarrow> nat \<Rightarrow> (nat \<Rightarrow> Finger) \<Rightarrow> nat list \<Rightarrow> (int \<times> int) list \<Rightarrow> (int \<times> int) list
     \<Rightarrow> ((int \<times> int) list \<times> (int \<times> int) list) option \<times> nat" where
  "collectPositions clk k fs [] startPositions endPositions =
     (Some (startPositions, endPositions), k)"
| "collectPositions clk k fs (i # rest) startPositions endPositions =
     (if \<not> IsActive (fs i) then collectPositions clk k fs rest startPositions endPositions
      else (let (swiped, k1) = hasSwiped clk k DIST_OTHER (fs i)
            in if \<not> swiped then (None, k1)
               else collectPositions clk k1 fs rest
                      (startPositions @ [(FirstX (fs i), FirstY (fs i))])
                      (endPositions @ [(LastX (fs i), LastY (fs i))])))"

definition calculateGesture :: "clock \<Rightarrow> nat \<Rightarrow> EventHandler \<Rightarrow> error + (gestureType \<times> nat)" where
  "calculateGesture clk k handler =
     (case collectPositions clk k (fingers handler) slots [] [] of
        (None, k1) \<Rightarrow> Inr (UNKNOWN, k1)
      | (Some (startPositions, endPositions), k1) \<Rightarrow>
          (case calculateCircumference startPositions of
             Inl e \<Rightarrow> Inl e
           | Inr start \<Rightarrow>
               (case calculateCircumference endPositions of
                  Inl e \<Rightarrow> Inl e
                | Inr endc \<Rightarrow> Inr (if start > endc then PINCH else SPREAD, k1))))"

definition emitGesture :: "Gesture \<Rightarrow> EventHandler \<Rightarrow> EventHandler \<times> Gesture option" where
  "emitGesture gesture handler = (handler\<lparr>lastGesture := GestureType gesture\<rparr>, Some gesture)"

text \<open>
  The block that \<open>detectGesture\<close> has twice (lines 295-300 and 309-315): emit the
  gesture and suspend, unless it is the last gesture reported.
\<close>

definition reportGesture :: "gestureType \<Rightarrow> EventHandler \<Rightarrow> EventHandler \<times> Gesture option" where
  "reportGesture gesture handler =
     (if lastGesture handler \<noteq> gesture
      then (let (handler1, sent) =
                  emitGesture \<lparr>GestureType = gesture, FingerCount = fingerCount handler\<rparr> handler
            in (handler1\<lparr>suspend := True\<rparr>, sent))
      else (handler, None))"

text \<open>
  The first loop of \<open>detectGesture\<close>: \<open>NotAllSwiped\<close> is the branch that returns from
  the function, \<open>PassDone isSwipe gesture\<close> the end of the loop (by \<open>break\<close> or after the
  last finger) with the values of the two variables.
\<close>

datatype swipePassResult = NotAllSwiped | PassDone bool gestureType

fun swipePass ::
  "clock \<Rightarrow> nat \<Rightarrow> (nat \<Rightarrow> Finger) \<Rightarrow> nat list \<Rightarrow> bool \<Rightarrow> gestureType \<Rightarrow> swipePassResult \<times> nat" where
  "swipePass clk k fs [] isSwipe gesture = (PassDone isSwipe gesture, k)"
| "swipePass clk k fs (i # rest) isSwipe gesture =
     (if \<not> IsActive (fs i) then swipePass clk k fs rest isSwipe gesture
      else (let (swiped, k1) = hasSwiped clk k DIST_SWIPE (fs i)
            in if swiped
               then (if i = 0 then swipePass clk k1 fs rest True (getDirection (fs i))
                     else if getDirection (fs i) \<noteq> gesture then (PassDone False gesture, k1)
                     else swipePass clk k1 fs rest True gesture)
               else (NotAllSwiped, k1)))"

definition detectGesture ::
  "clock \<Rightarrow> nat \<Rightarrow> EventHandler \<Rightarrow> error + (EventHandler \<times> Gesture option \<times> nat)" where
  "detectGesture clk k handler =
     (let timeDiff = clk k - checkTimer handler; k0 = Suc k
      in if configuredFingers handler (fingerCount handler) = None
            \<or> fingerCount handler < 2 \<or> timeDiff < CHECK_DELAY * Millisecond
         then Inr (handler, None, k0)
         else (case swipePass clk k0 (fingers handler) slots False UNKNOWN of
                 (NotAllSwiped, k1) \<Rightarrow>
                   (if timeDiff > 220 * Millisecond
                    then (let (handler1, k2) = resetFingers clk k1 handler
                          in Inr (handler1, None, k2))
                    else Inr (handler, None, k1))
               | (PassDone isSwipe gesture, k1) \<Rightarrow>
                   (if isSwipe
                    then (let (handler1, sent) = reportGesture gesture handler;
                              (handler2, k2) = resetFingers clk k1 handler1
                          in Inr (handler2, sent, k2))
                    else (case calculateGesture clk k1 handler of
                            Inl e \<Rightarrow> Inl e
                          | Inr (gesture1, k2) \<Rightarrow>
                              (let (handler1, sent) =
                                     (if gesture1 \<noteq> UNKNOWN then reportGesture gesture1 handler
                                      else (handler, None));
                                   (handler2, k3) = resetFingers clk k2 handler1
                               in Inr (handler2, sent, k3))))))"

definition handleSynEvent ::
  "clock \<Rightarrow> nat \<Rightarrow> InputEvent \<Rightarrow> EventHandler \<Rightarrow> error + (EventHandler \<times> Gesture option \<times> nat)" where
  "handleSynEvent clk k event handler =
     (if Code event = SYN_REPORT \<and> \<not> suspend handler then detectGesture clk k handler
      else Inr (handler, None, k))"

definition handleAbsEvent ::
  "clock \<Rightarrow> nat \<Rightarrow> InputEvent \<Rightarrow> EventHandler \<Rightarrow> error + (EventHandler \<times> nat)" where
  "handleAbsEvent clk k event handler =
     (if Code event = ABS_MT_SLOT then Inr (handler\<lparr>currentSlot := Value event\<rparr>, k)
      else if Code event = ABS_MT_TRACKING_ID then
        (let prevCount = fingerCount handler
         in if \<not> inArray (currentSlot handler) then Inl IndexOutOfRange
            else (let i = nat (currentSlot handler);
                      (handler1, k1) =
                        (if Value event = - 1
                         then (handler\<lparr>fingerCount := fingerCount handler - 1,
                                        fingers := (fingers handler)(i := deactivate (fingers handler i))\<rparr>, k)
                         else (let (finger, k0) = activate clk k (fingers handler i)
                               in (handler\<lparr>fingerCount := fingerCount handler + 1,
                                            fingers := (fingers handler)(i := finger)\<rparr>, k0)));
                      (handler2, k2) = resetFingers clk k1 handler1
                  in Inr (if prevCount = 0
                          then handler2\<lparr>lastGesture := UNKNOWN, suspend := False\<rparr>
                          else handler2, k2)))
      else if Code event = ABS_MT_POSITION_X then
        (if \<not> inArray (currentSlot handler) then Inl IndexOutOfRange
         else (let i = nat (currentSlot handler)
               in Inr (handler\<lparr>fingers := (fingers handler)(i := setPositionX (Value event) (fingers handler i))\<rparr>, k)))
      else if Code event = ABS_MT_POSITION_Y then
        (if \<not> inArray (currentSlot handler) then Inl IndexOutOfRange
         else (let i = nat (currentSlot handler)
               in Inr (handler\<lparr>fingers := (fingers handler)(i := setPositionY (Value event) (fingers handler i))\<rparr>, k)))
      else Inr (handler, k))"

definition handleEvent ::
  "clock \<Rightarrow> nat \<Rightarrow> InputEvent \<Rightarrow> EventHandler \<Rightarrow> error + (EventHandler \<times> Gesture option \<times> nat)" where
  "handleEvent clk k event handler =
     (if Type event = EV_SYN then handleSynEvent clk k event handler
      else if Type event = EV_ABS then
        (case handleAbsEvent clk k event handler of
           Inl e \<Rightarrow> Inl e
         | Inr (handler1, k1) \<Rightarrow> Inr (handler1, None, k1))
      else Inr (handler, None, k))"

text \<open>
  The loop of \<open>run\<close> over the events that the device delivers: the gestures sent on
  the channel, in order, and the handler at the end, or the panic that stopped the
  program.
\<close>

fun run ::
  "clock \<Rightarrow> nat \<Rightarrow> EventHandler \<Rightarrow> InputEvent list \<Rightarrow> Gesture list \<times> (error + EventHandler \<times> nat)" where
  "run clk k handler [] = ([], Inr (handler, k))"
| "run clk k handler (event # events) =
     (case handleEvent clk k event handler of
        Inl e \<Rightarrow> ([], Inl e)
      | Inr (handler1, sent, k1) \<Rightarrow>
          (let (gestures, r) = run clk k1 handler1 events
           in ((case sent of None \<Rightarrow> gestures | Some g \<Rightarrow> g # gestures), r)))"

section \<open>Sequences of position updates on one finger\<close>

text \<open>
  A call of \<open>setPositionX\<close> or \<open>setPositionY\<close>, and a sequence of such calls applied
  to a finger in order; \<open>xValues\<close> and \<open>yValues\<close> are the arguments of the calls on
  each axis.
\<close>

datatype positionUpdate = SetX int | SetY int

fun applyUpdate :: "positionUpdate \<Rightarrow> Finger \<Rightarrow> Finger" where
  "applyUpdate (SetX x) finger = setPositionX x finger"
| "applyUpdate (SetY y) finger = setPositionY y finger"

fun applyUpdates :: "positionUpdate list \<Rightarrow> Finger \<Rightarrow> Finger" where
  "applyUpdates [] finger = finger"
| "applyUpdates (u # us) finger = applyUpdates us (applyUpdate u finger)"

fun xValues :: "positionUpdate list \<Rightarrow> int list" where
  "xValues [] = []"
| "xValues (SetX x # us) = x # xValues us"
| "xValues (SetY y # us) = xValues us"

fun yValues :: "positionUpdate list \<Rightarrow> int list" where
  "yValues [] = []"
| "yValues (SetX x # us) = yValues us"
| "yValues (SetY y # us) = y # yValues us"

section \<open>Test data\<close>

text \<open>An active finger reset at time \<open>t\<close> that moved from \<open>(x0, y0)\<close> to \<open>(x, y)\<close>.\<close>

definition movedFinger :: "int \<Rightarrow> int \<Rightarrow> int \<Rightarrow> int \<Rightarrow> int \<Rightarrow> Finger" where
  "movedFinger t x0 y0 x y =
     \<lparr>FirstX = x0, FirstY = y0, LastX = x, LastY = y, HasPositionX = True,
      HasPositionY = True, IsActive = True, ActivationTime = t\<rparr>"

section \<open>Kinds of events\<close>

text \<open>The five kinds of events that \<open>handleEvent\<close> distinguishes by type and code.\<close>

definition isSlotSelect :: "InputEvent \<Rightarrow> bool" where
  "isSlotSelect e = (Type e = EV_ABS \<and> Code e = ABS_MT_SLOT)"

definition isTrackingId :: "InputEvent \<Rightarrow> bool" where
  "isTrackingId e = (Type e = EV_ABS \<and> Code e = ABS_MT_TRACKING_ID)"

definition isPositionX :: "InputEvent \<Rightarrow> bool" where
  "isPositionX e = (Type e = EV_ABS \<and> Code e = ABS_MT_POSITION_X)"

definition isPositionY :: "InputEvent \<Rightarrow> bool" where
  "isPositionY e = (Type e = EV_ABS \<and> Code e = ABS_MT_POSITION_Y)"

definition isReport :: "InputEvent \<Rightarrow> bool" where
  "isReport e = (Type e = EV_SYN \<and> Code e = SYN_REPORT)"

section \<open>Well-formed event sequences\<close>

text \<open>
  A sequence of events follows the multi-touch protocol when every slot-select names a
  slot of the array, a contact is added only to a slot that holds none and removed only
  from a slot that holds one. \<open>wellFormed slot active\<close> follows the protocol from a
  current slot and a set of occupied slots. \<open>tracks\<close> relates the two to a handler:
  the active fingers are the occupied slots and \<open>fingerCount\<close> is their number.
\<close>

fun wellFormed :: "int \<Rightarrow> nat set \<Rightarrow> InputEvent list \<Rightarrow> bool" where
  "wellFormed slot active [] = True"
| "wellFormed slot active (e # es) =
     (if isSlotSelect e then inArray (Value e) \<and> wellFormed (Value e) active es
      else if isTrackingId e then
        (if Value e = - 1
         then nat slot \<in> active \<and> wellFormed slot (active - {nat slot}) es
         else nat slot \<notin> active \<and> wellFormed slot (insert (nat slot) active) es)
      else wellFormed slot active es)"

definition activeSlots :: "EventHandler \<Rightarrow> nat set" where
  "activeSlots h = {i \<in> set slots. IsActive (fingers h i)}"

definition tracks :: "int \<Rightarrow> nat set \<Rightarrow> EventHandler \<Rightarrow> bool" where
  "tracks slot active h =
     (currentSlot h = slot \<and> inArray slot \<and> activeSlots h = active
      \<and> fingerCount h = int (card active))"

section \<open>Test data: events and a clock\<close>

text \<open>
  Events by kind, and a clock that advances 100 ms between two consecutive readings.
  \<open>twoFingerSwipe\<close>: two fingers land on slots 0 and 1, report their positions, move
  1200 units to the right, and the frame is reported.
\<close>

definition slotEvent :: "int \<Rightarrow> InputEvent" where
  "slotEvent v = \<lparr>Type = EV_ABS, Code = ABS_MT_SLOT, Value = v\<rparr>"
definition trackingEvent :: "int \<Rightarrow> InputEvent" where
  "trackingEvent v = \<lparr>Type = EV_ABS, Code = ABS_MT_TRACKING_ID, Value = v\<rparr>"
definition posXEvent :: "int \<Rightarrow> InputEvent" where
  "posXEvent v = \<lparr>Type = EV_ABS, Code = ABS_MT_POSITION_X, Value = v\<rparr>"
definition posYEvent :: "int \<Rightarrow> InputEvent" where
  "posYEvent v = \<lparr>Type = EV_ABS, Code = ABS_MT_POSITION_Y, Value = v\<rparr>"
definition reportEvent :: InputEvent where
  "reportEvent = \<lparr>Type = EV_SYN, Code = SYN_REPORT, Value = 0\<rparr>"

definition tick :: clock where
  "tick k = 100000000 * int k"

definition twoFingerSwipe :: "InputEvent list" where
  "twoFingerSwipe =
     [slotEvent 0, trackingEvent 10, slotEvent 1, trackingEvent 11,
      slotEvent 0, posXEvent 100, posYEvent 100, slotEvent 1, posXEvent 100, posYEvent 300,
      slotEvent 0, posXEvent 1300, slotEvent 1, posXEvent 1300, reportEvent]"

section \<open>Contact epochs\<close>

text \<open>
  \<open>sameEpoch clk k h es\<close>: while the events \<open>es\<close> are handled from \<open>h\<close>, no
  tracking-id event arrives at a moment when the finger count is 0.
\<close>

fun sameEpoch :: "clock \<Rightarrow> nat \<Rightarrow> EventHandler \<Rightarrow> InputEvent list \<Rightarrow> bool" where
  "sameEpoch clk k h [] = True"
| "sameEpoch clk k h (e # es) =
     (\<not> (isTrackingId e \<and> fingerCount h = 0)
      \<and> (case handleEvent clk k e h of
            Inl err \<Rightarrow> True
          | Inr (h1, out, k1) \<Rightarrow> sameEpoch clk k1 h1 es))"

section \<open>Test data: runs\<close>

text \<open>
  The handler and the number of clock readings after a run from the first reading;
  \<open>sendFirst\<close> puts the gesture sent by one event before those of the rest of a run.
\<close>

definition handlerAfter :: "clock \<Rightarrow> EventHandler \<Rightarrow> InputEvent list \<Rightarrow> EventHandler" where
  "handlerAfter clk h es = (case snd (run clk 0 h es) of Inl err \<Rightarrow> h | Inr (h1, k1) \<Rightarrow> h1)"

definition readsAfter :: "clock \<Rightarrow> EventHandler \<Rightarrow> InputEvent list \<Rightarrow> nat" where
  "readsAfter clk h es = (case snd (run clk 0 h es) of Inl err \<Rightarrow> 0 | Inr (h1, k1) \<Rightarrow> k1)"

definition slotOneEvents :: "InputEvent list" where
  "slotOneEvents =
     [trackingEvent 10, posXEvent 5, reportEvent, trackingEvent (- 1), reportEvent, posYEvent 7]"

definition keepMoving :: "InputEvent list" where
  "keepMoving =
     [slotEvent 0, posXEvent 1400, posYEvent 100, posXEvent 2600,
      slotEvent 1, posXEvent 1400, posYEvent 300, posXEvent 2600, reportEvent]"

definition liftAll :: "InputEvent list" where
  "liftAll = [slotEvent 0, trackingEvent (- 1), slotEvent 1, trackingEvent (- 1)]"

definition swipeRight2 :: Gesture where
  "swipeRight2 = \<lparr>GestureType = SWIPE_RIGHT, FingerCount = 2\<rparr>"

definition sendFirst :: "Gesture option \<Rightarrow> Gesture list \<times> 'a \<Rightarrow> Gesture list \<times> 'a" where
  "sendFirst out r = ((case out of None \<Rightarrow> fst r | Some g \<Rightarrow> g # fst r), snd r)"

section \<open>Positions of the active fingers\<close>




section \<open>Test data: more traces\<close>



definition threeFingersMixed :: "InputEvent list" where
  "threeFingersMixed =
     [slotEvent 0, trackingEvent 10, slotEvent 1, trackingEvent 11, slotEvent 2, trackingEvent 12,
      slotEvent 0, posXEvent 100, posYEvent 100, slotEvent 1, posXEvent 3000, posYEvent 100,
      slotEvent 2, posXEvent 1500, posYEvent 900,
      slotEvent 0, posXEvent 1300, slotEvent 1, posXEvent 1800]"

definition swipeOnSlots12 :: "InputEvent list" where
  "swipeOnSlots12 =
     [slotEvent 1, trackingEvent 10, slotEvent 2, trackingEvent 11,
      slotEvent 1, posXEvent 100, posYEvent 100, slotEvent 2, posXEvent 100, posYEvent 300,
      slotEvent 1, posXEvent 1300, slotEvent 2, posXEvent 1300]"


definition spread2 :: Gesture where
  "spread2 = \<lparr>GestureType = SPREAD, FingerCount = 2\<rparr>"

section \<open>Properties of the helper functions\<close>

lemma roundToEven_of_int [simp]: "roundToEven (of_int z) = z"
  by (simp add: roundToEven_def)

lemma roundToEven_ge_floor: "\<lfloor>q\<rfloor> \<le> roundToEven q"
  by (simp add: roundToEven_def Let_def)

lemma roundToEven_error: "\<bar>of_int (roundToEven q) - q\<bar> \<le> 1 / 2"
proof -
  have "0 \<le> q - of_int \<lfloor>q\<rfloor>" "q - of_int \<lfloor>q\<rfloor> < 1" by linarith+
  then show ?thesis by (auto simp: roundToEven_def Let_def)
qed

lemma roundToEven_near:
  assumes "\<bar>q - of_int m\<bar> < 1 / 2"
  shows "roundToEven q = m"
proof -
  from roundToEven_error [of q] assms
  have "\<bar>of_int (roundToEven q) - (of_int m :: real)\<bar> < 1" by linarith
  then have "\<bar>of_int (roundToEven q - m) :: real\<bar> < 1" by simp
  then have "\<bar>roundToEven q - m\<bar> < 1" by linarith
  then show ?thesis by simp
qed

text \<open>The unit in the last place of a number in the binade \<open>2 ^ e .. 2 ^ (e + 1)\<close>, \<open>e \<le> 52\<close>.\<close>

lemma ulp_binade:
  fixes a :: real
  assumes "2 ^ e \<le> a" and "a < 2 ^ Suc e" and "e \<le> 52"
  shows "2 powr of_int (\<lfloor>log 2 \<bar>a\<bar>\<rfloor> - 52) = (1 :: real) / 2 ^ (52 - e)"
proof -
  have pos: "0 < a" using assms(1) by (smt (verit) zero_less_power)
  have "\<lfloor>log 2 a\<rfloor> = int e"
    using pos assms(1,2) by (simp add: floor_log_eq_powr_iff powr_realpow powr_add)
  then have "\<lfloor>log 2 \<bar>a\<bar>\<rfloor> - 52 = - int (52 - e)" using pos assms(3) by simp
  then have "2 powr of_int (\<lfloor>log 2 \<bar>a\<bar>\<rfloor> - 52) = 2 powr (- real (52 - e))" by simp
  also have "\<dots> = (1 :: real) / 2 ^ (52 - e)"
    by (simp add: powr_minus powr_realpow inverse_eq_divide)
  finally show ?thesis .
qed


lemma binade_exists:
  fixes a :: real
  shows "1 \<le> a \<Longrightarrow> a < 2 ^ N \<Longrightarrow> \<exists>e<N. 2 ^ e \<le> a \<and> a < 2 ^ Suc e"
proof (induction N)
  case 0
  then show ?case by simp
next
  case (Suc N)
  show ?case
  proof (cases "a < 2 ^ N")
    case True
    from Suc.IH [OF Suc.prems(1) True] show ?thesis by (auto intro: less_SucI)
  next
    case False
    with Suc.prems(2) show ?thesis by (intro exI [of _ N]) simp
  qed
qed

lemma roundFloat64_binade:
  fixes a :: real
  assumes "2 ^ e \<le> a" and "a < 2 ^ Suc e" and "e \<le> 52"
  shows "roundFloat64 a = of_int (roundToEven (a * 2 ^ (52 - e))) / 2 ^ (52 - e)"
proof -
  have "0 < a" using assms(1) by (smt (verit) zero_less_power)
  then have "a \<noteq> 0" by simp
  then show ?thesis
    unfolding roundFloat64_def Let_def ulp_binade [OF assms] by simp
qed

lemma roundFloat64_nat:
  assumes "m < 2 ^ 53"
  shows "roundFloat64 (real m) = real m"
proof (cases "m = 0")
  case True
  then show ?thesis by (simp add: roundFloat64_def)
next
  case False
  then have "1 \<le> real m" by simp
  moreover have "real m < 2 ^ 53" using assms by (metis of_nat_less_iff of_nat_numeral of_nat_power)
  ultimately obtain e where e: "e < 53" "2 ^ e \<le> real m" "real m < 2 ^ Suc e"
    using binade_exists [of "real m" 53] by blast
  then have le: "e \<le> 52" by simp
  have "real m * 2 ^ (52 - e) = of_int (int (m * 2 ^ (52 - e)))" by simp
  then have "roundToEven (real m * 2 ^ (52 - e)) = int (m * 2 ^ (52 - e))"
    by (simp only: roundToEven_of_int)
  then show ?thesis
    by (simp add: roundFloat64_binade [OF e(2,3) le])
qed

lemma roundFloat64_minus: "roundFloat64 (- r) = - roundFloat64 r"
proof -
  have "roundToEven (- q) = - roundToEven q" for q
  proof (cases "q = of_int \<lfloor>q\<rfloor>")
    case True
    then obtain z where "q = of_int z" ..
    then show ?thesis by (simp flip: of_int_minus)
  next
    case False
    then have c: "\<lceil>q\<rceil> = \<lfloor>q\<rfloor> + 1" by (simp add: ceiling_altdef)
    have f: "\<lfloor>- q\<rfloor> = - \<lfloor>q\<rfloor> - 1" using c by (simp add: ceiling_def)
    have "0 \<le> q - of_int \<lfloor>q\<rfloor>" "q - of_int \<lfloor>q\<rfloor> < 1" by linarith+
    then show ?thesis
      using False by (auto simp: roundToEven_def Let_def f)
  qed
  then show ?thesis by (simp add: roundFloat64_def Let_def)
qed

lemma roundFloat64_int:
  assumes "\<bar>m\<bar> < 2 ^ 53"
  shows "roundFloat64 (of_int m) = of_int m"
proof (cases "0 \<le> m")
  case True
  then have "nat m < 2 ^ 53" using assms by (simp add: nat_less_iff)
  from roundFloat64_nat [OF this] True show ?thesis by simp
next
  case False
  then have "nat (- m) < 2 ^ 53" using assms by (simp add: nat_less_iff)
  from roundFloat64_nat [OF this] False have "roundFloat64 (of_int (- m)) = of_int (- m)" by simp
  then show ?thesis by (simp add: roundFloat64_minus)
qed


lemma mathSqrt_nat_floor:
  assumes "n < 2 ^ 52"
  shows "truncateToInt (mathSqrt (real n)) = \<lfloor>sqrt (real n)\<rfloor>"
proof (cases "n = 0")
  case True
  then show ?thesis by (simp add: mathSqrt_def roundFloat64_def truncateToInt_def)
next
  case False
  define s where "s = sqrt (real n)"
  define k where "k = \<lfloor>s\<rfloor>"
  have s1: "1 \<le> s" using False by (simp add: s_def)
  have "real n < (2 ^ 26)\<^sup>2" using assms
    by (metis of_nat_less_iff of_nat_numeral of_nat_power power_even_eq numeral_Bit0 mult_2 power2_eq_square power_add)
  then have s26: "s < 2 ^ 26" unfolding s_def by (intro real_less_lsqrt) simp_all
  have ks: "of_int k \<le> s" "s < of_int k + 1" unfolding k_def by linarith+
  have k0: "1 \<le> k" using s1 unfolding k_def by simp
  have k26: "of_int k + 1 \<le> (2 ^ 26 :: real)"
  proof -
    have "k < 2 ^ 26" using s26 unfolding k_def by (simp add: floor_less_iff)
    then have "k + 1 \<le> 2 ^ 26" by simp
    then have "(of_int (k + 1) :: real) \<le> of_int (2 ^ 26)" by (simp only: of_int_le_iff)
    then show ?thesis by simp
  qed
  obtain e where e: "e < 26" "2 ^ e \<le> s" "s < 2 ^ Suc e"
    using binade_exists [OF s1 s26] by blast
  then have le: "e \<le> 52" by simp
  define d where "d = 52 - e"
  have d27: "27 \<le> d" using e(1) by (simp add: d_def)
  define R where "R = roundToEven (s * 2 ^ d)"
  have fl: "mathSqrt (real n) = of_int R / 2 ^ d"
    unfolding mathSqrt_def R_def d_def s_def [symmetric] by (rule roundFloat64_binade [OF e(2,3) le])
  have lower: "of_int k \<le> of_int R / (2 ^ d :: real)"
  proof -
    have "(of_int (k * 2 ^ d) :: real) \<le> s * 2 ^ d" using ks(1) by simp
    then have "k * 2 ^ d \<le> \<lfloor>s * 2 ^ d\<rfloor>" by (simp only: le_floor_iff)
    also have "\<dots> \<le> R" unfolding R_def by (rule roundToEven_ge_floor)
    finally have "(of_int (k * 2 ^ d) :: real) \<le> of_int R" by (simp only: of_int_le_iff)
    then show ?thesis by (simp add: pos_le_divide_eq)
  qed
  have n_lt: "real n < (of_int k + 1)\<^sup>2"
  proof -
    have "s\<^sup>2 < (of_int k + 1)\<^sup>2" using ks(2) s1 by (intro power_strict_mono) simp_all
    then show ?thesis by (simp add: s_def)
  qed
  have n_le: "real n \<le> (of_int k + 1)\<^sup>2 - 1"
  proof -
    have "real n = of_int (int n)" by simp
    moreover have "(of_int k + 1 :: real)\<^sup>2 = of_int ((k + 1)\<^sup>2)" by simp
    ultimately have "(of_int (int n) :: real) < of_int ((k + 1)\<^sup>2)" using n_lt by simp
    then have "int n < (k + 1)\<^sup>2" by (simp only: of_int_less_iff)
    then have "int n \<le> (k + 1)\<^sup>2 - 1" by simp
    then have "(of_int (int n) :: real) \<le> of_int ((k + 1)\<^sup>2 - 1)" by (simp only: of_int_le_iff)
    then show ?thesis by simp
  qed
  have gap: "s < of_int k + 1 - 1 / 2 ^ 27"
  proof -
    let ?t = "of_int k + 1 :: real"
    have tpos: "0 \<le> ?t - 1 / 2 ^ 27" using k0 by simp
    have sq: "(t - c)\<^sup>2 = t\<^sup>2 - 2 * t * c + c\<^sup>2" for t c :: real
      by (simp add: power2_eq_square algebra_simps)
    have "(?t - 1 / 2 ^ 27)\<^sup>2 = ?t\<^sup>2 - 2 * ?t * (1 / 2 ^ 27) + (1 / 2 ^ 27)\<^sup>2"
      by (rule sq)
    moreover have "2 * ?t * (1 / 2 ^ 27) = ?t / 2 ^ 26" by simp
    moreover have "?t / 2 ^ 26 \<le> 1" using k26 by simp
    moreover have "0 < (1 / 2 ^ 27 :: real)\<^sup>2" by simp
    ultimately have "?t\<^sup>2 - 1 < (?t - 1 / 2 ^ 27)\<^sup>2" by linarith
    with n_le have "real n < (?t - 1 / 2 ^ 27)\<^sup>2" by linarith
    then show ?thesis unfolding s_def using tpos by (intro real_less_lsqrt) simp_all
  qed
  have upper: "of_int R / (2 ^ d :: real) < of_int k + 1"
  proof -
    have "of_int R - s * 2 ^ d \<le> 1 / 2"
      using roundToEven_error [of "s * 2 ^ d"] unfolding R_def by linarith
    then have "of_int R \<le> s * 2 ^ d + 1 / 2" by linarith
    then have "of_int R / 2 ^ d \<le> (s * 2 ^ d + 1 / 2) / 2 ^ d"
      by (intro divide_right_mono) simp_all
    also have "\<dots> = s + 1 / (2 * 2 ^ d)" by (simp add: field_simps)
    finally have a: "of_int R / 2 ^ d \<le> s + 1 / (2 * 2 ^ d)" .
    have "(2 ^ 27 :: real) \<le> 2 ^ d" using d27 by (intro power_increasing) simp_all
    then have "1 / (2 * 2 ^ d) \<le> 1 / (2 * 2 ^ 27 :: real)" by (intro divide_left_mono) simp_all
    moreover have "1 / (2 * 2 ^ 27) < (1 / 2 ^ 27 :: real)" by simp
    ultimately show ?thesis using a gap by linarith
  qed
  have nonneg: "0 \<le> of_int R / (2 ^ d :: real)" using lower k0 by linarith
  have "\<lfloor>of_int R / (2 ^ d :: real)\<rfloor> = k"
    using lower upper by (intro floor_unique) simp_all
  then show ?thesis
    using nonneg by (simp add: fl truncateToInt_def k_def s_def)
qed


lemma abs_less_of_square:
  fixes a :: int
  assumes "a * a < 2 ^ 52"
  shows "\<bar>a\<bar> < 2 ^ 26"
proof (rule ccontr)
  assume "\<not> \<bar>a\<bar> < 2 ^ 26"
  then have "2 ^ 26 \<le> \<bar>a\<bar>" by simp
  then have "2 ^ 26 * 2 ^ 26 \<le> \<bar>a\<bar> * \<bar>a\<bar>" by (intro mult_mono) simp_all
  then have "(2 ^ 52 :: int) \<le> a * a" by (simp add: abs_mult_self_eq)
  with assms show False by simp
qed



lemma distance_core:
  assumes "dx * dx + dy * dy < (2 ^ 52 :: int)"
  shows "truncateToInt (mathSqrt (roundFloat64 (mathPow2 (float64 dx) + mathPow2 (float64 dy))))
           = \<lfloor>sqrt (real_of_int (dx * dx + dy * dy))\<rfloor>"
proof -
  define n where "n = dx * dx + dy * dy"
  have n: "n < 2 ^ 52" "0 \<le> n" using assms by (simp_all add: n_def)
  have "dx * dx \<le> n" "dy * dy \<le> n" by (simp_all add: n_def)
  with n(1) have sq: "dx * dx < 2 ^ 52" "dy * dy < 2 ^ 52" by linarith+
  have ab: "\<bar>dx\<bar> < 2 ^ 26" "\<bar>dy\<bar> < 2 ^ 26"
    by (rule abs_less_of_square [OF sq(1)], rule abs_less_of_square [OF sq(2)])
  have p53: "(2 ^ 26 :: int) < 2 ^ 53" "(2 ^ 52 :: int) < 2 ^ 53" by simp_all
  have fx: "float64 dx = of_int dx" unfolding float64_def
    by (rule roundFloat64_int) (use ab(1) p53(1) in linarith)
  have fy: "float64 dy = of_int dy" unfolding float64_def
    by (rule roundFloat64_int) (use ab(2) p53(1) in linarith)
  have ax: "\<bar>dx * dx\<bar> < 2 ^ 53" using sq(1) p53(2) by simp
  have ay: "\<bar>dy * dy\<bar> < 2 ^ 53" using sq(2) p53(2) by simp
  have an: "\<bar>n\<bar> < 2 ^ 53" using n p53(2) by simp
  have "mathPow2 (of_int dx) = roundFloat64 (of_int (dx * dx))" by (simp add: mathPow2_def)
  also have "\<dots> = of_int (dx * dx)" by (rule roundFloat64_int [OF ax])
  finally have px: "mathPow2 (of_int dx) = of_int (dx * dx)" .
  have "mathPow2 (of_int dy) = roundFloat64 (of_int (dy * dy))" by (simp add: mathPow2_def)
  also have "\<dots> = of_int (dy * dy)" by (rule roundFloat64_int [OF ay])
  finally have py: "mathPow2 (of_int dy) = of_int (dy * dy)" .
  have "mathPow2 (float64 dx) + mathPow2 (float64 dy) = of_int n"
    unfolding fx fy px py n_def by simp
  then have sum: "roundFloat64 (mathPow2 (float64 dx) + mathPow2 (float64 dy)) = of_int n"
    by (simp only: roundFloat64_int [OF an])
  have nn: "nat n < 2 ^ 52" using n by (simp add: nat_less_iff)
  have rn: "real_of_int n = real (nat n)" using n(2) by simp
  have "truncateToInt (mathSqrt (of_int n)) = \<lfloor>sqrt (real_of_int n)\<rfloor>"
    unfolding rn by (rule mathSqrt_nat_floor [OF nn])
  then show ?thesis unfolding sum n_def .
qed


lemma calculateDistance_exact:
  assumes "(x - x0) * (x - x0) + (y - y0) * (y - y0) < 2 ^ 52"
  shows "calculateDistance x0 y0 x y
           = \<lfloor>sqrt (real_of_int ((x - x0) * (x - x0) + (y - y0) * (y - y0)))\<rfloor>"
  unfolding calculateDistance_def by (rule distance_core [OF assms])

lemma sqrt_square_int: "sqrt (real_of_int (a * a)) = real_of_int \<bar>a\<bar>"
  by simp

lemma calculateDistance_horizontal [simp]:
  assumes "\<bar>x - x0\<bar> < 2 ^ 26"
  shows "calculateDistance x0 y x y = \<bar>x - x0\<bar>"
proof -
  have "\<bar>x - x0\<bar> * \<bar>x - x0\<bar> < 2 ^ 26 * 2 ^ 26"
    using assms by (intro mult_strict_mono) simp_all
  then have b: "(x - x0) * (x - x0) + (y - y) * (y - y) < 2 ^ 52" by (simp add: abs_mult_self_eq)
  have z: "(x - x0) * (x - x0) + (y - y) * (y - y) = (x - x0) * (x - x0)" by simp
  have "calculateDistance x0 y x y = \<lfloor>sqrt (real_of_int ((x - x0) * (x - x0)))\<rfloor>"
    using calculateDistance_exact [OF b] by (simp only: z)
  then show ?thesis by (simp only: sqrt_square_int floor_of_int)
qed


lemma calculateDistance_vertical [simp]:
  assumes "\<bar>y - y0\<bar> < 2 ^ 26"
  shows "calculateDistance x y0 x y = \<bar>y - y0\<bar>"
proof -
  have "\<bar>y - y0\<bar> * \<bar>y - y0\<bar> < 2 ^ 26 * 2 ^ 26"
    using assms by (intro mult_strict_mono) simp_all
  then have b: "(x - x) * (x - x) + (y - y0) * (y - y0) < 2 ^ 52" by (simp add: abs_mult_self_eq)
  have z: "(x - x) * (x - x) + (y - y0) * (y - y0) = (y - y0) * (y - y0)" by simp
  have "calculateDistance x y0 x y = \<lfloor>sqrt (real_of_int ((y - y0) * (y - y0)))\<rfloor>"
    using calculateDistance_exact [OF b] by (simp only: z)
  then show ?thesis by (simp only: sqrt_square_int floor_of_int)
qed

lemma sqrt_near_67117699:
  "67117699 - 1 / 2 ^ 27 < sqrt 4504785519054600" "sqrt 4504785519054600 < 67117699"
proof -
  have "(67117699 - 1 / 2 ^ 27 :: real)\<^sup>2 < 4504785519054600"
    by (simp add: power2_eq_square)
  then show "67117699 - 1 / 2 ^ 27 < sqrt 4504785519054600"
    by (rule real_less_rsqrt)
  have "(4504785519054600 :: real) < 67117699\<^sup>2" by simp
  then show "sqrt 4504785519054600 < 67117699"
    by (intro real_less_lsqrt) simp_all
qed

lemma mathSqrt_rounds_up: "mathSqrt 4504785519054600 = 67117699"
proof -
  define s :: real where "s = sqrt 4504785519054600"
  have near: "67117699 - 1 / 2 ^ 27 < s" "s < 67117699"
    unfolding s_def by (rule sqrt_near_67117699)+
  have lo: "2 ^ 26 \<le> s" using near(1) by simp
  have hi: "s < 2 ^ Suc 26" using near(2) by simp
  have "\<bar>s * 2 ^ 26 - of_int (67117699 * 2 ^ 26)\<bar> < 1 / 2"
    using near by (simp add: abs_less_iff) 
  then have "roundToEven (s * 2 ^ 26) = 67117699 * 2 ^ 26" by (rule roundToEven_near)
  then have "roundToEven (s * 2 ^ (52 - 26)) = 67117699 * 2 ^ 26" by simp
  with roundFloat64_binade [OF lo hi] show ?thesis
    by (simp add: mathSqrt_def s_def)
qed

lemma calculateDistance_rounds_up:
  "calculateDistance 0 0 67117698 11586 = 67117699"
  "\<lfloor>sqrt (real_of_int (67117698 * 67117698 + 11586 * 11586))\<rfloor> = 67117698"
proof -
  have a: "float64 67117698 = 67117698" "float64 11586 = 11586"
    unfolding float64_def using roundFloat64_int [of 67117698] roundFloat64_int [of 11586]
    by simp_all
  have b: "mathPow2 67117698 = 4504785384819204" "mathPow2 11586 = 134235396"
    unfolding mathPow2_def
    using roundFloat64_int [of 4504785384819204] roundFloat64_int [of 134235396]
    by simp_all
  have c: "roundFloat64 4504785519054600 = 4504785519054600"
    using roundFloat64_int [of 4504785519054600] by simp
  show "calculateDistance 0 0 67117698 11586 = 67117699"
    by (simp add: calculateDistance_def a b c mathSqrt_rounds_up truncateToInt_def)
  have "\<lfloor>sqrt (4504785519054600 :: real)\<rfloor> = 67117698"
  proof (rule floor_unique)
    have "(67117698 :: real)\<^sup>2 \<le> 4504785519054600" by simp
    then show "of_int 67117698 \<le> sqrt (4504785519054600 :: real)"
      by (simp add: real_le_rsqrt)
    show "sqrt (4504785519054600 :: real) < of_int 67117698 + 1"
      using sqrt_near_67117699(2) by simp
  qed
  then show "\<lfloor>sqrt (real_of_int (67117698 * 67117698 + 11586 * 11586))\<rfloor> = 67117698"
    by simp
qed

lemma sqrt_25: "sqrt 25 = 5"
proof -
  have "sqrt 25 = sqrt ((5 :: real)\<^sup>2)" by simp
  also have "\<dots> = \<bar>5\<bar>" by (rule real_sqrt_abs)
  finally show ?thesis by simp
qed

text \<open>
  C9 (as amended). The circumference of exactly two points is the distance between
  them as \<open>calculateDistance\<close> computes it, one leg and not the closed path there and
  back; that distance is the truncated Euclidean distance whenever the squared distance
  is below \<open>2 ^ 52\<close>; and the circumference of the four corners (0,0), (0,10), (10,10),
  (10,0) of a square is 40.
\<close>

theorem C9_circumference_two_points_and_square:
  "calculateCircumference [p, q] = Inr (calculateDistance (fst p) (snd p) (fst q) (snd q))
   \<and> ((fst q - fst p) * (fst q - fst p) + (snd q - snd p) * (snd q - snd p) < 2 ^ 52 \<longrightarrow>
        calculateDistance (fst p) (snd p) (fst q) (snd q)
          = \<lfloor>sqrt (real_of_int ((fst q - fst p) * (fst q - fst p)
                                  + (snd q - snd p) * (snd q - snd p)))\<rfloor>)
   \<and> calculateCircumference [(0, 0), (0, 10), (10, 10), (10, 0)] = Inr 40"
proof (intro conjI impI)
  show "calculateCircumference [p, q] = Inr (calculateDistance (fst p) (snd p) (fst q) (snd q))"
    by (simp add: calculateCircumference_def)
  show "calculateCircumference [(0, 0), (0, 10), (10, 10), (10, 0)] = Inr 40"
    by (simp add: calculateCircumference_def)
next
  assume "(fst q - fst p) * (fst q - fst p) + (snd q - snd p) * (snd q - snd p) < 2 ^ 52"
  then show "calculateDistance (fst p) (snd p) (fst q) (snd q)
          = \<lfloor>sqrt (real_of_int ((fst q - fst p) * (fst q - fst p)
                                  + (snd q - snd p) * (snd q - snd p)))\<rfloor>"
    by (rule calculateDistance_exact)
qed

theorem C9_circumference_two_points_and_square_witness:
  "(3 - 0) * (3 - 0) + (4 - 0) * (4 - 0) < (2 ^ 52 :: int)
   \<and> calculateCircumference [(0, 0), (3, 4)] = Inr 5
   \<and> calculateDistance 0 0 3 4 = 5"
proof -
  have b: "(fst (3, 4) - fst (0, 0)) * (fst (3, 4) - fst (0, 0))
             + (snd (3, 4) - snd (0, 0)) * (snd (3, 4) - snd (0, 0)) < (2 ^ 52 :: int)"
    by simp
  from C9_circumference_two_points_and_square [of "(0, 0)" "(3, 4)"] b
  have "calculateCircumference [(0, 0), (3, 4)] = Inr (calculateDistance 0 0 3 4)"
    and "calculateDistance 0 0 3 4 = \<lfloor>sqrt (real_of_int (3 * 3 + 4 * 4))\<rfloor>"
    by simp_all
  then show ?thesis by (simp add: sqrt_25)
qed

text \<open>
  C9 as stated fails for distant points: between (0,0) and (67117698,11586) the squared
  distance is \<open>67117699\<^sup>2 - 1\<close>, its square root rounds in float64 to 67117699, and
  the circumference is 67117699, while the truncated Euclidean distance is 67117698.
\<close>

theorem C9_counterexample:
  "calculateCircumference [(0, 0), (67117698, 11586)] = Inr 67117699
   \<and> \<lfloor>sqrt (real_of_int (67117698 * 67117698 + 11586 * 11586))\<rfloor> = 67117698"
  using calculateDistance_rounds_up by (simp add: calculateCircumference_def)

section \<open>Properties of a finger\<close>

lemma atan2_pos_x_axis: "0 < x \<Longrightarrow> atan2 0 x = 0"
  by (simp add: atan2_def)

lemma atan2_neg_x_axis: "x < 0 \<Longrightarrow> atan2 0 x = pi"
  by (simp add: atan2_def)

lemma atan2_pos_y_axis: "0 < y \<Longrightarrow> atan2 y 0 = pi / 2"
  by (simp add: atan2_def)

lemma atan2_neg_y_axis: "y < 0 \<Longrightarrow> atan2 y 0 = - (pi / 2)"
  by (simp add: atan2_def)

lemma getAngle_right:
  "hasPosition f \<Longrightarrow> FirstX f < LastX f \<Longrightarrow> LastY f = FirstY f \<Longrightarrow> getAngle f = 0"
  by (simp add: getAngle_def Let_def atan2_pos_x_axis truncateToInt_def)

lemma getAngle_left:
  "hasPosition f \<Longrightarrow> LastX f < FirstX f \<Longrightarrow> LastY f = FirstY f \<Longrightarrow> getAngle f = 180"
  by (simp add: getAngle_def Let_def atan2_neg_x_axis truncateToInt_def)

lemma getAngle_up:
  "hasPosition f \<Longrightarrow> LastX f = FirstX f \<Longrightarrow> LastY f < FirstY f \<Longrightarrow> getAngle f = 90"
  by (simp add: getAngle_def Let_def atan2_pos_y_axis truncateToInt_def)

lemma getAngle_down:
  "hasPosition f \<Longrightarrow> LastX f = FirstX f \<Longrightarrow> FirstY f < LastY f \<Longrightarrow> getAngle f = 270"
  by (simp add: getAngle_def Let_def atan2_neg_y_axis truncateToInt_def)

lemma getDirection_buckets:
  "getDirection f =
     (if 45 \<le> getAngle f \<and> getAngle f \<le> 135 then SWIPE_UP
      else if 135 < getAngle f \<and> getAngle f \<le> 225 then SWIPE_LEFT
      else if 225 < getAngle f \<and> getAngle f \<le> 315 then SWIPE_DOWN
      else SWIPE_RIGHT)"
  by (auto simp: getDirection_def Let_def)


lemma atan2_range: "- pi < atan2 y x \<and> atan2 y x \<le> pi"
proof -
  have b: "- (pi / 2) < arctan (y / x)" "arctan (y / x) < pi / 2"
    by (rule arctan_lbound, rule arctan_ubound)
  have p: "0 < pi" by (rule pi_gt_zero)
  show ?thesis
  proof (cases "0 < x")
    case True
    then have "atan2 y x = arctan (y / x)" by (simp add: atan2_def)
    with b p show ?thesis by linarith
  next
    case nx: False
    show ?thesis
    proof (cases "x < 0")
      case True
      show ?thesis
      proof (cases "0 \<le> y")
        case y: True
        with True have "y / x \<le> 0" by (simp add: divide_nonneg_neg)
        then have "arctan (y / x) \<le> 0" by (simp add: arctan_le_zero_iff)
        moreover from True y have "atan2 y x = arctan (y / x) + pi" by (simp add: atan2_def)
        ultimately show ?thesis using b p by linarith
      next
        case y: False
        with True have "0 < y / x" by (simp add: divide_neg_neg)
        then have "0 < arctan (y / x)" by (simp add: zero_less_arctan_iff)
        moreover from True y have "atan2 y x = arctan (y / x) - pi" by (simp add: atan2_def)
        ultimately show ?thesis using b p by linarith
      qed
    next
      case False
      with nx have "atan2 y x = pi / 2 \<or> atan2 y x = - (pi / 2) \<or> atan2 y x = 0"
        by (simp add: atan2_def)
      with p show ?thesis by linarith
    qed
  qed
qed

lemma getAngle_range: "0 \<le> getAngle f \<and> getAngle f < 360"
proof (cases "hasPosition f")
  case False
  then show ?thesis by (simp add: getAngle_def)
next
  case True
  define t where "t = atan2 (real_of_int (- (LastY f - FirstY f))) (real_of_int (LastX f - FirstX f))"
  define a where "a = t * 180 / pi"
  have p: "0 < pi" by (rule pi_gt_zero)
  from atan2_range [of "real_of_int (- (LastY f - FirstY f))" "real_of_int (LastX f - FirstX f)"]
  have tr: "- pi < t" "t \<le> pi" by (simp_all add: t_def)
  have "- 180 * pi < t * 180" using tr(1) by linarith
  then have r1: "- 180 < a" using p by (simp add: a_def pos_less_divide_eq)
  have "t * 180 \<le> 180 * pi" using tr(2) by linarith
  then have r2: "a \<le> 180" using p by (simp add: a_def pos_divide_le_eq)
  have tl: "- 180 < truncateToInt a \<and> truncateToInt a \<le> 180"
  proof (cases "0 \<le> a")
    case True
    then have "0 \<le> \<lfloor>a\<rfloor>" by simp
    moreover have "\<lfloor>a\<rfloor> \<le> 180" using r2 by (simp add: floor_le_iff)
    ultimately show ?thesis using True by (simp add: truncateToInt_def)
  next
    case False
    then have "\<lceil>a\<rceil> \<le> 0" by (simp add: ceiling_le_iff)
    moreover have "- 180 < \<lceil>a\<rceil>" using r1 by (simp add: less_ceiling_iff)
    ultimately show ?thesis using False by (simp add: truncateToInt_def)
  qed
  have "getAngle f = (if truncateToInt a < 0 then 360 + truncateToInt a else truncateToInt a)"
    using True by (simp add: getAngle_def Let_def a_def t_def)
  with tl show ?thesis by auto
qed

text \<open>
  C6. \<open>hasSwiped\<close> with threshold \<open>T\<close> is false when the finger lacks a latched
  position, false when the time since \<open>ActivationTime\<close> (the reading of the clock minus
  the activation time, in nanoseconds) is below 50 ms whatever the distance, and
  otherwise true exactly when \<open>getDistance\<close> is strictly greater than \<open>T\<close>.
\<close>

theorem C6_hasSwiped:
  "(\<not> hasPosition f \<longrightarrow> fst (hasSwiped clk k T f) = False)
   \<and> (clk k - ActivationTime f < 50 * 1000000 \<longrightarrow> fst (hasSwiped clk k T f) = False)
   \<and> (hasPosition f \<and> \<not> clk k - ActivationTime f < 50 * 1000000
        \<longrightarrow> fst (hasSwiped clk k T f) = (getDistance f > T))"
  by (simp add: hasSwiped_def CHECK_DELAY_def Millisecond_def)

theorem C6_hasSwiped_witness:
  "fst (hasSwiped (\<lambda>k. 60000000) 0 1100 (movedFinger 0 0 0 1200 0)) = True
   \<and> fst (hasSwiped (\<lambda>k. 60000000) 0 1100 (movedFinger 0 0 0 1100 0)) = False
   \<and> fst (hasSwiped (\<lambda>k. 49999999) 0 1100 (movedFinger 0 0 0 1200 0)) = False
   \<and> fst (hasSwiped (\<lambda>k. 60000000) 0 1100 ((movedFinger 0 0 0 1200 0)\<lparr>HasPositionY := False\<rparr>)) = False"
  using C6_hasSwiped [of "movedFinger 0 0 0 1200 0" "\<lambda>k. 60000000" 0 1100]
        C6_hasSwiped [of "movedFinger 0 0 0 1100 0" "\<lambda>k. 60000000" 0 1100]
        C6_hasSwiped [of "movedFinger 0 0 0 1200 0" "\<lambda>k. 49999999" 0 1100]
        C6_hasSwiped [of "(movedFinger 0 0 0 1200 0)\<lparr>HasPositionY := False\<rparr>" "\<lambda>k. 60000000" 0 1100]
  by (simp add: movedFinger_def hasPosition_def getDistance_def)

text \<open>
  C7. For a finger with a latched position, a movement with positive x delta and no y
  delta has direction Right, negative x delta and no y delta Left, a pure movement up
  the screen (last y below first y) Up, and a pure movement down Down; and the
  direction is the bucket of \<open>getAngle\<close>: 45..135 is Up, above 135 up to 225 Left, above
  225 up to 315 Down, everything else Right, so that at the shared boundaries 45, 135,
  225 and 315 the first range in the order Up, Left, Down, Right wins. The angle lies in
  0..359, so "everything else" is 0..44 and 316..359.
\<close>

theorem C7_direction:
  assumes "hasPosition f"
  shows "(LastX f - FirstX f > 0 \<and> LastY f - FirstY f = 0 \<longrightarrow> getDirection f = SWIPE_RIGHT)
   \<and> (LastX f - FirstX f < 0 \<and> LastY f - FirstY f = 0 \<longrightarrow> getDirection f = SWIPE_LEFT)
   \<and> (LastY f < FirstY f \<and> LastX f - FirstX f = 0 \<longrightarrow> getDirection f = SWIPE_UP)
   \<and> (LastY f > FirstY f \<and> LastX f - FirstX f = 0 \<longrightarrow> getDirection f = SWIPE_DOWN)
   \<and> getDirection f =
       (if 45 \<le> getAngle f \<and> getAngle f \<le> 135 then SWIPE_UP
        else if 135 < getAngle f \<and> getAngle f \<le> 225 then SWIPE_LEFT
        else if 225 < getAngle f \<and> getAngle f \<le> 315 then SWIPE_DOWN
        else SWIPE_RIGHT)
   \<and> 0 \<le> getAngle f \<and> getAngle f < 360"
proof (intro conjI impI)
  assume "LastX f - FirstX f > 0 \<and> LastY f - FirstY f = 0"
  then have "getAngle f = 0" using assms by (intro getAngle_right) simp_all
  then show "getDirection f = SWIPE_RIGHT" by (simp add: getDirection_buckets)
next
  assume "LastX f - FirstX f < 0 \<and> LastY f - FirstY f = 0"
  then have "getAngle f = 180" using assms by (intro getAngle_left) simp_all
  then show "getDirection f = SWIPE_LEFT" by (simp add: getDirection_buckets)
next
  assume "LastY f < FirstY f \<and> LastX f - FirstX f = 0"
  then have "getAngle f = 90" using assms by (intro getAngle_up) simp_all
  then show "getDirection f = SWIPE_UP" by (simp add: getDirection_buckets)
next
  assume "LastY f > FirstY f \<and> LastX f - FirstX f = 0"
  then have "getAngle f = 270" using assms by (intro getAngle_down) simp_all
  then show "getDirection f = SWIPE_DOWN" by (simp add: getDirection_buckets)
next
  show "getDirection f =
       (if 45 \<le> getAngle f \<and> getAngle f \<le> 135 then SWIPE_UP
        else if 135 < getAngle f \<and> getAngle f \<le> 225 then SWIPE_LEFT
        else if 225 < getAngle f \<and> getAngle f \<le> 315 then SWIPE_DOWN
        else SWIPE_RIGHT)"
    by (rule getDirection_buckets)
next
  show "0 \<le> getAngle f" "getAngle f < 360"
    using getAngle_range [of f] by simp_all
qed

theorem C7_direction_witness:
  "getDirection (movedFinger 0 100 100 700 100) = SWIPE_RIGHT
   \<and> getDirection (movedFinger 0 100 100 20 100) = SWIPE_LEFT
   \<and> getDirection (movedFinger 0 100 100 100 30) = SWIPE_UP
   \<and> getDirection (movedFinger 0 100 100 100 900) = SWIPE_DOWN"
proof -
  have p: "\<And>t a b c d. hasPosition (movedFinger t a b c d)"
    by (simp add: movedFinger_def hasPosition_def)
  show ?thesis
    using C7_direction [OF p, of 0 100 100 700 100] C7_direction [OF p, of 0 100 100 20 100]
          C7_direction [OF p, of 0 100 100 100 30] C7_direction [OF p, of 0 100 100 100 900]
    by (simp add: movedFinger_def)
qed


text \<open>
  C8. After a reset, for every sequence of \<open>setPositionX\<close>/\<open>setPositionY\<close> calls: the
  has-flag of an axis is set exactly when the axis had a call, the first position of the
  axis is the value of its first call (and the old value when it had none), the last
  position is the value of its latest call, and a further call overwrites the last
  position and leaves a latched first position as it is.
\<close>

lemma applyUpdates_x:
  "HasPositionX (applyUpdates us g) = (HasPositionX g \<or> xValues us \<noteq> [])
   \<and> FirstX (applyUpdates us g) = (if HasPositionX g \<or> xValues us = [] then FirstX g else hd (xValues us))
   \<and> LastX (applyUpdates us g) = (if xValues us = [] then LastX g else last (xValues us))"
proof (induction us arbitrary: g)
  case Nil
  show ?case by simp
next
  case (Cons u us)
  show ?case
    by (cases u) (simp_all add: Cons.IH setPositionX_def setPositionY_def Let_def)
qed

lemma applyUpdates_y:
  "HasPositionY (applyUpdates us g) = (HasPositionY g \<or> yValues us \<noteq> [])
   \<and> FirstY (applyUpdates us g) = (if HasPositionY g \<or> yValues us = [] then FirstY g else hd (yValues us))
   \<and> LastY (applyUpdates us g) = (if yValues us = [] then LastY g else last (yValues us))"
proof (induction us arbitrary: g)
  case Nil
  show ?case by simp
next
  case (Cons u us)
  show ?case
    by (cases u) (simp_all add: Cons.IH setPositionX_def setPositionY_def Let_def)
qed

theorem C8_first_latched_last_overwritten:
  fixes us :: "positionUpdate list" and clk :: clock and k :: nat and f :: Finger
  defines "g \<equiv> applyUpdates us (fst (reset clk k f))"
  shows "HasPositionX g = (xValues us \<noteq> [])
   \<and> HasPositionY g = (yValues us \<noteq> [])
   \<and> FirstX g = (if xValues us = [] then FirstX f else hd (xValues us))
   \<and> FirstY g = (if yValues us = [] then FirstY f else hd (yValues us))
   \<and> LastX g = (if xValues us = [] then LastX f else last (xValues us))
   \<and> LastY g = (if yValues us = [] then LastY f else last (yValues us))
   \<and> LastX (setPositionX x g) = x \<and> LastY (setPositionY y g) = y
   \<and> HasPositionX (setPositionX x g) \<and> HasPositionY (setPositionY y g)
   \<and> FirstX (setPositionX x g) = (if xValues us = [] then x else FirstX g)
   \<and> FirstY (setPositionY y g) = (if yValues us = [] then y else FirstY g)"
  unfolding g_def
  by (simp add: applyUpdates_x applyUpdates_y reset_def setPositionX_def setPositionY_def Let_def)


section \<open>Properties of the event handler\<close>

lemma resetEach_snd: "snd (resetEach clk k is fs) = k + length is"
  by (induction "is" arbitrary: k fs) (simp_all add: reset_def)

lemma resetEach_IsActive: "IsActive (fst (resetEach clk k is fs) j) = IsActive (fs j)"
  by (induction "is" arbitrary: k fs) (simp_all add: reset_def)

lemma resetFingers_eq:
  "resetFingers clk k h =
     (h\<lparr>fingers := fst (resetEach clk k slots (fingers h)), checkTimer := clk (k + 5)\<rparr>, k + 6)"
proof -
  have "length slots = 5" by (simp add: slots_def)
  then have "snd (resetEach clk k slots (fingers h)) = k + 5"
    by (simp only: resetEach_snd)
  then show ?thesis
    by (simp add: resetFingers_def split_beta)
qed

lemma reportGesture_cases:
  "reportGesture g h = (h1, out) \<Longrightarrow>
     (out = None \<and> h1 = h \<and> lastGesture h = g)
     \<or> (out = Some \<lparr>GestureType = g, FingerCount = fingerCount h\<rparr>
        \<and> h1 = h\<lparr>lastGesture := g, suspend := True\<rparr> \<and> lastGesture h \<noteq> g)"
  by (auto simp: reportGesture_def emitGesture_def split: if_splits)

lemma detectGesture_frame:
  assumes "detectGesture clk k h = Inr (h1, out, k1)"
  shows "currentSlot h1 = currentSlot h \<and> fingerCount h1 = fingerCount h
    \<and> configuredFingers h1 = configuredFingers h
    \<and> (\<forall>i. IsActive (fingers h1 i) = IsActive (fingers h i))
    \<and> (case out of
          None \<Rightarrow> suspend h1 = suspend h \<and> lastGesture h1 = lastGesture h
        | Some g \<Rightarrow> suspend h1 \<and> lastGesture h1 = GestureType g
                    \<and> FingerCount g = fingerCount h \<and> GestureType g \<noteq> lastGesture h)"
  using assms
  by (auto simp: detectGesture_def Let_def resetFingers_eq resetEach_IsActive
           split: if_splits prod.splits sum.splits swipePassResult.splits
           dest!: reportGesture_cases)


lemma swipePass_none_active:
  "\<forall>i\<in>set is. \<not> IsActive (fs i) \<Longrightarrow> swipePass clk k fs is b g = (PassDone b g, k)"
  by (induction "is" arbitrary: k b g) simp_all

lemma collectPositions_none_active:
  "\<forall>i\<in>set is. \<not> IsActive (fs i) \<Longrightarrow> collectPositions clk k fs is sp ep = (Some (sp, ep), k)"
  by (induction "is" arbitrary: k sp ep) simp_all

lemma collectPositions_length:
  "collectPositions clk k fs is sp ep = (Some (sp1, ep1), k1) \<Longrightarrow>
     length sp \<le> length sp1 \<and> length ep \<le> length ep1
     \<and> ((\<exists>i\<in>set is. IsActive (fs i)) \<longrightarrow> length sp < length sp1 \<and> length ep < length ep1)"
proof (induction "is" arbitrary: k sp ep)
  case Nil
  then show ?case by simp
next
  case (Cons i "is")
  show ?case
  proof (cases "IsActive (fs i)")
    case False
    with Cons.prems have "collectPositions clk k fs is sp ep = (Some (sp1, ep1), k1)" by simp
    from Cons.IH [OF this] False show ?thesis by simp
  next
    case True
    obtain sw k2 where hs: "hasSwiped clk k DIST_OTHER (fs i) = (sw, k2)"
      by (cases "hasSwiped clk k DIST_OTHER (fs i)")
    with Cons.prems True have sw by (auto split: if_splits)
    with Cons.prems True hs
    have "collectPositions clk k2 fs is (sp @ [(FirstX (fs i), FirstY (fs i))])
            (ep @ [(LastX (fs i), LastY (fs i))]) = (Some (sp1, ep1), k1)"
      by simp
    from Cons.IH [OF this] show ?thesis by simp
  qed
qed

lemma calculateCircumference_fails: "(\<exists>e. calculateCircumference ps = Inl e) = (ps = [])"
  by (cases ps) (auto simp: calculateCircumference_def split_beta)

lemma calculateGesture_fails:
  "(\<exists>e. calculateGesture clk k h = Inl e) = (\<forall>i\<in>set slots. \<not> IsActive (fingers h i))"
proof
  assume "\<exists>e. calculateGesture clk k h = Inl e"
  then obtain e where f: "calculateGesture clk k h = Inl e" ..
  show "\<forall>i\<in>set slots. \<not> IsActive (fingers h i)"
  proof (rule ccontr)
    assume "\<not> (\<forall>i\<in>set slots. \<not> IsActive (fingers h i))"
    then have act: "\<exists>i\<in>set slots. IsActive (fingers h i)" by simp
    obtain r k1 where c: "collectPositions clk k (fingers h) slots [] [] = (r, k1)"
      by (cases "collectPositions clk k (fingers h) slots [] []")
    show False
    proof (cases r)
      case None
      with c f show False by (simp add: calculateGesture_def)
    next
      case (Some p)
      obtain sp ep where p: "p = (sp, ep)" by (cases p)
      from collectPositions_length [OF c [unfolded Some p]] act
      have "sp \<noteq> []" "ep \<noteq> []" by auto
      then have "\<not> (\<exists>e. calculateCircumference sp = Inl e)" "\<not> (\<exists>e. calculateCircumference ep = Inl e)"
        by (simp_all only: calculateCircumference_fails not_False_eq_True)
      with c f Some p show False
        by (auto simp: calculateGesture_def split: sum.splits)
    qed
  qed
next
  assume "\<forall>i\<in>set slots. \<not> IsActive (fingers h i)"
  then have "collectPositions clk k (fingers h) slots [] [] = (Some ([], []), k)"
    by (rule collectPositions_none_active)
  then show "\<exists>e. calculateGesture clk k h = Inl e"
    by (simp add: calculateGesture_def calculateCircumference_def)
qed

lemma detectGesture_fails:
  "(\<exists>e. detectGesture clk k h = Inl e) =
     (configuredFingers h (fingerCount h) \<noteq> None \<and> 2 \<le> fingerCount h
      \<and> CHECK_DELAY * Millisecond \<le> clk k - checkTimer h
      \<and> (\<forall>i\<in>set slots. \<not> IsActive (fingers h i)))"
proof (cases "configuredFingers h (fingerCount h) = None \<or> fingerCount h < 2
               \<or> clk k - checkTimer h < CHECK_DELAY * Millisecond")
  case True
  then show ?thesis by (auto simp: detectGesture_def Let_def)
next
  case guard: False
  show ?thesis
  proof (cases "\<forall>i\<in>set slots. \<not> IsActive (fingers h i)")
    case True
    then have sp: "swipePass clk (Suc k) (fingers h) slots False UNKNOWN = (PassDone False UNKNOWN, Suc k)"
      by (rule swipePass_none_active)
    from True have "\<exists>e. calculateGesture clk (Suc k) h = Inl e"
      by (simp only: calculateGesture_fails)
    then obtain e where "calculateGesture clk (Suc k) h = Inl e" ..
    with guard sp True show ?thesis
      by (auto simp: detectGesture_def Let_def)
  next
    case False
    then have "\<And>k1. \<not> (\<exists>e. calculateGesture clk k1 h = Inl e)"
      by (simp only: calculateGesture_fails not_False_eq_True)
    then have ng: "\<And>k1 e. calculateGesture clk k1 h \<noteq> Inl e" by blast
    have "\<not> (\<exists>e. detectGesture clk k h = Inl e)"
      using guard ng
      by (auto simp: detectGesture_def Let_def resetFingers_eq
               split: prod.splits sum.splits swipePassResult.splits if_splits)
    with False show ?thesis by blast
  qed
qed


lemmas code_defs = EV_SYN_def EV_ABS_def SYN_REPORT_def ABS_MT_SLOT_def ABS_MT_TRACKING_ID_def
  ABS_MT_POSITION_X_def ABS_MT_POSITION_Y_def

lemmas kind_defs = isSlotSelect_def isTrackingId_def isPositionX_def isPositionY_def isReport_def

lemma handleEvent_slot:
  "isSlotSelect e \<Longrightarrow> handleEvent clk k e h = Inr (h\<lparr>currentSlot := Value e\<rparr>, None, k)"
  by (simp add: handleEvent_def handleAbsEvent_def kind_defs code_defs)

lemma handleEvent_positionX:
  "isPositionX e \<Longrightarrow> inArray (currentSlot h) \<Longrightarrow>
   handleEvent clk k e h =
     Inr (h\<lparr>fingers := (fingers h)(nat (currentSlot h) :=
                setPositionX (Value e) (fingers h (nat (currentSlot h))))\<rparr>, None, k)"
  by (simp add: handleEvent_def handleAbsEvent_def kind_defs code_defs Let_def)

lemma handleEvent_positionY:
  "isPositionY e \<Longrightarrow> inArray (currentSlot h) \<Longrightarrow>
   handleEvent clk k e h =
     Inr (h\<lparr>fingers := (fingers h)(nat (currentSlot h) :=
                setPositionY (Value e) (fingers h (nat (currentSlot h))))\<rparr>, None, k)"
  by (simp add: handleEvent_def handleAbsEvent_def kind_defs code_defs Let_def)

lemma handleEvent_tracking:
  assumes "isTrackingId e" and "inArray (currentSlot h)"
  shows "\<exists>h1 k1. handleEvent clk k e h = Inr (h1, None, k1)
     \<and> currentSlot h1 = currentSlot h
     \<and> configuredFingers h1 = configuredFingers h
     \<and> fingerCount h1 = (if Value e = - 1 then fingerCount h - 1 else fingerCount h + 1)
     \<and> (\<forall>i. IsActive (fingers h1 i) =
              (if i = nat (currentSlot h) then Value e \<noteq> - 1 else IsActive (fingers h i)))
     \<and> suspend h1 = (if fingerCount h = 0 then False else suspend h)
     \<and> lastGesture h1 = (if fingerCount h = 0 then UNKNOWN else lastGesture h)"
  using assms
  by (simp add: handleEvent_def handleAbsEvent_def kind_defs code_defs Let_def resetFingers_eq
        resetEach_IsActive activate_def deactivate_def reset_def split_beta)

lemma handleEvent_frame:
  assumes "handleEvent clk k e h = Inr (h1, out, k1)"
    and "\<not> isSlotSelect e" and "\<not> isTrackingId e"
  shows "currentSlot h1 = currentSlot h \<and> fingerCount h1 = fingerCount h
     \<and> configuredFingers h1 = configuredFingers h
     \<and> (\<forall>i. IsActive (fingers h1 i) = IsActive (fingers h i))"
proof (cases "Type e = EV_SYN")
  case True
  show ?thesis
  proof (cases "Code e = SYN_REPORT \<and> \<not> suspend h")
    case True
    with \<open>Type e = EV_SYN\<close> assms(1) have "detectGesture clk k h = Inr (h1, out, k1)"
      by (simp add: handleEvent_def handleSynEvent_def)
    from detectGesture_frame [OF this] show ?thesis by simp
  next
    case False
    with \<open>Type e = EV_SYN\<close> assms(1) show ?thesis
      by (auto simp: handleEvent_def handleSynEvent_def)
  qed
next
  case False
  with assms show ?thesis
    by (auto simp: handleEvent_def handleAbsEvent_def kind_defs Let_def
          setPositionX_def setPositionY_def split: if_splits)
qed

lemma handleEvent_fails:
  "(\<exists>err. handleEvent clk k e h = Inl err) =
     ((Type e = EV_ABS
        \<and> (Code e = ABS_MT_TRACKING_ID \<or> Code e = ABS_MT_POSITION_X \<or> Code e = ABS_MT_POSITION_Y)
        \<and> \<not> inArray (currentSlot h))
      \<or> (Type e = EV_SYN \<and> Code e = SYN_REPORT \<and> \<not> suspend h
          \<and> configuredFingers h (fingerCount h) \<noteq> None \<and> 2 \<le> fingerCount h
          \<and> CHECK_DELAY * Millisecond \<le> clk k - checkTimer h
          \<and> (\<forall>i\<in>set slots. \<not> IsActive (fingers h i))))"
proof (cases "Type e = EV_SYN")
  case True
  then have "handleEvent clk k e h =
      (if Code e = SYN_REPORT \<and> \<not> suspend h then detectGesture clk k h else Inr (h, None, k))"
    by (simp add: handleEvent_def handleSynEvent_def)
  with True detectGesture_fails [of clk k h] show ?thesis
    by (auto simp: code_defs)
next
  case False
  then show ?thesis
    by (auto simp: handleEvent_def handleAbsEvent_def code_defs Let_def split_beta
             split: sum.splits)
qed


lemmas event_defs = slotEvent_def trackingEvent_def posXEvent_def posYEvent_def reportEvent_def

lemma activeSlots_finite: "finite (activeSlots h)"
  by (simp add: activeSlots_def)

lemma inArray_slots: "inArray s \<Longrightarrow> nat s \<in> set slots"
  by (auto simp: inArray_def slots_def)

lemma tracks_new: "tracks 0 {} (newEventHandler cf)"
  by (simp add: tracks_def newEventHandler_def activeSlots_def zeroFinger_def inArray_def)

lemma run_wellFormed:
  "tracks slot active h \<Longrightarrow> wellFormed slot active es
     \<Longrightarrow> \<exists>h1 k1. snd (run clk k h es) = Inr (h1, k1)"
proof (induction es arbitrary: slot active h k)
  case Nil
  show ?case by simp
next
  case (Cons e es)
  from Cons.prems(1) have t: "currentSlot h = slot" "inArray slot" "activeSlots h = active"
    "fingerCount h = int (card active)"
    by (simp_all add: tracks_def)
  have fin: "finite active" using t(3) activeSlots_finite [of h] by simp
  have step: "\<exists>h1 out k1 slot1 active1. handleEvent clk k e h = Inr (h1, out, k1)
      \<and> tracks slot1 active1 h1 \<and> wellFormed slot1 active1 es"
  proof (cases "isSlotSelect e")
    case True
    with Cons.prems(2) have wf: "inArray (Value e)" "wellFormed (Value e) active es" by simp_all
    have "tracks (Value e) active (h\<lparr>currentSlot := Value e\<rparr>)"
      using t wf(1) by (simp add: tracks_def activeSlots_def)
    with handleEvent_slot [OF True, of clk k h] wf(2) show ?thesis by blast
  next
    case noSlot: False
    show ?thesis
    proof (cases "isTrackingId e")
      case True
      from handleEvent_tracking [OF True, of h clk k] t
      obtain h1 k1 where h1: "handleEvent clk k e h = Inr (h1, None, k1)"
        "currentSlot h1 = slot"
        "fingerCount h1 = (if Value e = - 1 then fingerCount h - 1 else fingerCount h + 1)"
        "\<forall>i. IsActive (fingers h1 i) =
              (if i = nat slot then Value e \<noteq> - 1 else IsActive (fingers h i))"
        by auto
      have sl: "nat slot \<in> set slots" using t(2) by (rule inArray_slots)
      show ?thesis
      proof (cases "Value e = - 1")
        case True
        with Cons.prems(2) noSlot \<open>isTrackingId e\<close>
        have wf: "nat slot \<in> active" "wellFormed slot (active - {nat slot}) es" by simp_all
        have "activeSlots h1 = active - {nat slot}"
          using h1(4) True t(3) by (auto simp: activeSlots_def)
        moreover have "int (card (active - {nat slot})) = int (card active) - 1"
        proof -
          have "0 < card active" using wf(1) fin by (auto simp: card_gt_0_iff)
          moreover have "card (active - {nat slot}) = card active - 1"
            using wf(1) by (simp add: card_Diff_singleton)
          ultimately show ?thesis by simp
        qed
        ultimately have "tracks slot (active - {nat slot}) h1"
          using h1(2,3) True t(2,4) by (simp add: tracks_def)
        with h1(1) wf(2) show ?thesis by blast
      next
        case False
        with Cons.prems(2) noSlot \<open>isTrackingId e\<close>
        have wf: "nat slot \<notin> active" "wellFormed slot (insert (nat slot) active) es" by simp_all
        have "activeSlots h1 = insert (nat slot) active"
          using h1(4) False t(3) sl by (auto simp: activeSlots_def)
        moreover have "int (card (insert (nat slot) active)) = int (card active) + 1"
          using wf(1) fin by simp
        ultimately have "tracks slot (insert (nat slot) active) h1"
          using h1(2,3) False t(2,4) by (simp add: tracks_def)
        with h1(1) wf(2) show ?thesis by blast
      qed
    next
      case noTrack: False
      from Cons.prems(2) noSlot noTrack have wf: "wellFormed slot active es" by simp
      have "\<not> (\<exists>err. handleEvent clk k e h = Inl err)"
      proof -
        have "2 \<le> fingerCount h \<Longrightarrow> \<exists>i\<in>set slots. IsActive (fingers h i)"
        proof -
          assume "2 \<le> fingerCount h"
          with t(4) have "active \<noteq> {}" by auto
          with t(3) show ?thesis by (auto simp: activeSlots_def)
        qed
        then show ?thesis
          using t(1,2) by (auto simp: handleEvent_fails)
      qed
      then obtain h1 out k1 where h1: "handleEvent clk k e h = Inr (h1, out, k1)"
        by (cases "handleEvent clk k e h") auto
      from handleEvent_frame [OF h1 noSlot noTrack] t
      have "tracks slot active h1" by (simp add: tracks_def activeSlots_def)
      with h1 wf show ?thesis by blast
    qed
  qed
  then obtain h1 out k1 slot1 active1 where s: "handleEvent clk k e h = Inr (h1, out, k1)"
      "tracks slot1 active1 h1" "wellFormed slot1 active1 es"
    by blast
  from Cons.IH [OF s(2,3), of k1] obtain h2 k2 where "snd (run clk k1 h1 es) = Inr (h2, k2)"
    by blast
  with s(1) show ?case by (simp add: split_beta)
qed


text \<open>
  Evaluating the handler on concrete events: the definitions to unfold, and a
  congruence rule that makes the simplifier evaluate a pair before the code that
  consumes it.
\<close>

lemma case_prod_weak_cong: "p = q \<Longrightarrow> case_prod c p = case_prod c q"
  by simp

lemmas eval_defs = handleEvent_def handleAbsEvent_def handleSynEvent_def detectGesture_def
  resetFingers_def slots_def reset_def activate_def deactivate_def setPositionX_def
  setPositionY_def inArray_def newEventHandler_def zeroFinger_def hasSwiped_def hasPosition_def
  getDistance_def calculateGesture_def calculateCircumference_def reportGesture_def
  emitGesture_def CHECK_DELAY_def Millisecond_def DIST_SWIPE_def DIST_OTHER_def tick_def
  event_defs code_defs kind_defs Let_def

text \<open>
  C1 (as amended). Handling one event fails, with an index out of range, exactly in two
  situations: a tracking-id or position event arrives while the current slot is outside
  0..4, or a frame report starts a detection (not suspended, finger count configured and
  at least 2, 50 ms since the reset timer) while no finger is active. Hence a sequence of
  events that follows the protocol, handled from the initial handler, never fails: it
  only produces or withholds gestures.
\<close>

theorem C1_fails_exactly_out_of_range:
  "((\<exists>err. handleEvent clk k e h = Inl err) =
     ((Type e = EV_ABS
        \<and> (Code e = ABS_MT_TRACKING_ID \<or> Code e = ABS_MT_POSITION_X \<or> Code e = ABS_MT_POSITION_Y)
        \<and> \<not> inArray (currentSlot h))
      \<or> (Type e = EV_SYN \<and> Code e = SYN_REPORT \<and> \<not> suspend h
          \<and> configuredFingers h (fingerCount h) \<noteq> None \<and> 2 \<le> fingerCount h
          \<and> CHECK_DELAY * Millisecond \<le> clk k - checkTimer h
          \<and> (\<forall>i\<in>set slots. \<not> IsActive (fingers h i)))))
   \<and> (wellFormed 0 {} es \<longrightarrow> (\<exists>h1 k1. snd (run clk k (newEventHandler cf) es) = Inr (h1, k1)))"
proof (intro conjI impI)
  show "(\<exists>err. handleEvent clk k e h = Inl err) =
     ((Type e = EV_ABS
        \<and> (Code e = ABS_MT_TRACKING_ID \<or> Code e = ABS_MT_POSITION_X \<or> Code e = ABS_MT_POSITION_Y)
        \<and> \<not> inArray (currentSlot h))
      \<or> (Type e = EV_SYN \<and> Code e = SYN_REPORT \<and> \<not> suspend h
          \<and> configuredFingers h (fingerCount h) \<noteq> None \<and> 2 \<le> fingerCount h
          \<and> CHECK_DELAY * Millisecond \<le> clk k - checkTimer h
          \<and> (\<forall>i\<in>set slots. \<not> IsActive (fingers h i))))"
    by (rule handleEvent_fails)
next
  assume "wellFormed 0 {} es"
  with tracks_new show "\<exists>h1 k1. snd (run clk k (newEventHandler cf) es) = Inr (h1, k1)"
    by (rule run_wellFormed)
qed

theorem C1_fails_exactly_out_of_range_witness:
  "wellFormed 0 {} twoFingerSwipe
   \<and> (\<exists>h1 k1. snd (run tick 0 (newEventHandler [2 \<mapsto> True]) twoFingerSwipe) = Inr (h1, k1))"
proof -
  have wf: "wellFormed 0 {} twoFingerSwipe"
    by (simp add: twoFingerSwipe_def event_defs kind_defs code_defs inArray_def)
  with C1_fails_exactly_out_of_range [where es = twoFingerSwipe and clk = tick and k = 0
        and cf = "[2 \<mapsto> True]" and e = reportEvent and h = "newEventHandler [2 \<mapsto> True]"]
  show ?thesis by blast
qed

text \<open>
  C1 as stated fails: a slot-select of 7 followed by a position update panics, and so
  does a frame report with finger count 2 when no finger is active (three contacts
  added on slot 0, one removed).
\<close>

theorem C1_counterexample:
  "snd (run tick 0 (newEventHandler [2 \<mapsto> True]) [slotEvent 7, posXEvent 100])
     = Inl IndexOutOfRange
   \<and> snd (run tick 0 (newEventHandler [2 \<mapsto> True])
           [trackingEvent 1, trackingEvent 2, trackingEvent 3, trackingEvent (- 1), reportEvent])
     = Inl IndexOutOfRange"
  by (simp add: eval_defs cong: case_prod_weak_cong let_weak_cong)

lemma handleEvent_emits:
  assumes "handleEvent clk k e h = Inr (h1, Some g, k1)"
  shows "suspend h1 \<and> lastGesture h1 = GestureType g \<and> isReport e \<and> \<not> suspend h
         \<and> FingerCount g = fingerCount h \<and> GestureType g \<noteq> lastGesture h"
proof (cases "Type e = EV_SYN")
  case True
  with assms have r: "Code e = SYN_REPORT \<and> \<not> suspend h"
    by (auto simp: handleEvent_def handleSynEvent_def split: if_splits)
  with True assms have "detectGesture clk k h = Inr (h1, Some g, k1)"
    by (simp add: handleEvent_def handleSynEvent_def)
  from detectGesture_frame [OF this] r True show ?thesis by (simp add: isReport_def)
next
  case False
  with assms show ?thesis
    by (auto simp: handleEvent_def split: if_splits sum.splits)
qed

lemma handleEvent_currentSlot:
  assumes "handleEvent clk k e h = Inr (h1, out, k1)" and "\<not> isSlotSelect e"
  shows "currentSlot h1 = currentSlot h"
proof (cases "isTrackingId e")
  case True
  have "inArray (currentSlot h)"
  proof (rule ccontr)
    assume "\<not> inArray (currentSlot h)"
    with True have "\<exists>err. handleEvent clk k e h = Inl err"
      by (simp only: handleEvent_fails) (simp add: isTrackingId_def)
    with assms(1) show False by auto
  qed
  from handleEvent_tracking [OF True this, of clk k] assms(1) show ?thesis by auto
next
  case False
  from handleEvent_frame [OF assms(1,2) False] show ?thesis by simp
qed

lemma handleEvent_suspended:
  assumes "handleEvent clk k e h = Inr (h1, out, k1)" and "suspend h"
    and "\<not> (isTrackingId e \<and> fingerCount h = 0)"
  shows "out = None \<and> suspend h1 \<and> lastGesture h1 = lastGesture h"
proof (cases "isTrackingId e")
  case True
  have "inArray (currentSlot h)"
  proof (rule ccontr)
    assume "\<not> inArray (currentSlot h)"
    with True have "\<exists>err. handleEvent clk k e h = Inl err"
      by (simp only: handleEvent_fails) (simp add: isTrackingId_def)
    with assms(1) show False by auto
  qed
  from handleEvent_tracking [OF True this, of clk k] assms True show ?thesis by auto
next
  case False
  with assms(1,2) show ?thesis
    by (auto simp: handleEvent_def handleSynEvent_def handleAbsEvent_def kind_defs Let_def
             split: if_splits)
qed

lemma run_suspended:
  "suspend h \<Longrightarrow> sameEpoch clk k h es \<Longrightarrow>
     fst (run clk k h es) = []
     \<and> (\<forall>h1 k1. snd (run clk k h es) = Inr (h1, k1)
           \<longrightarrow> suspend h1 \<and> lastGesture h1 = lastGesture h)"
proof (induction es arbitrary: h k)
  case Nil
  then show ?case by simp
next
  case (Cons e es)
  show ?case
  proof (cases "handleEvent clk k e h")
    case (Inl err)
    then show ?thesis by simp
  next
    case (Inr r)
    obtain h1 out k1 where r: "r = (h1, out, k1)" by (cases r)
    from Cons.prems(2) have ne: "\<not> (isTrackingId e \<and> fingerCount h = 0)" by simp
    from handleEvent_suspended [OF Inr [unfolded r] Cons.prems(1) ne]
    have s: "out = None" "suspend h1" "lastGesture h1 = lastGesture h" by simp_all
    from Cons.prems(2) Inr r have "sameEpoch clk k1 h1 es" by simp
    from Cons.IH [OF s(2) this] Inr r s show ?thesis by (simp add: split_beta)
  qed
qed

lemma run_currentSlot:
  "\<forall>e\<in>set es. \<not> isSlotSelect e \<Longrightarrow> snd (run clk k h es) = Inr (h1, k1)
     \<Longrightarrow> currentSlot h1 = currentSlot h"
proof (induction es arbitrary: h k)
  case Nil
  then show ?case by simp
next
  case (Cons e es)
  show ?case
  proof (cases "handleEvent clk k e h")
    case (Inl err)
    with Cons.prems(2) show ?thesis by simp
  next
    case (Inr r)
    obtain h2 out k2 where r: "r = (h2, out, k2)" by (cases r)
    from Cons.prems(1) have "\<not> isSlotSelect e" by simp
    from handleEvent_currentSlot [OF Inr [unfolded r] this]
    have c: "currentSlot h2 = currentSlot h" .
    from Cons.prems(2) Inr r have "snd (run clk k2 h2 es) = Inr (h1, k1)"
      by (simp add: split_beta)
    moreover from Cons.prems(1) have "\<forall>e\<in>set es. \<not> isSlotSelect e" by simp
    ultimately have "currentSlot h1 = currentSlot h2" by (rule Cons.IH [rotated])
    with c show ?thesis by simp
  qed
qed


lemma sendFirst_pair:
  "sendFirst None (gs, r) = (gs, r)" "sendFirst (Some g) (gs, r) = (g # gs, r)"
  by (simp_all add: sendFirst_def)

lemma run_step:
  "run clk k h (e # es) =
     (case handleEvent clk k e h of
        Inl err \<Rightarrow> ([], Inl err)
      | Inr r \<Rightarrow> sendFirst (fst (snd r)) (run clk (snd (snd r)) (fst r) es))"
  by (simp add: sendFirst_def split_beta split: sum.splits option.splits)


lemmas run_eval = run_step sendFirst_pair handlerAfter_def readsAfter_def

text \<open>
  C4. An event that emits a gesture leaves the handler suspended, with the gesture's
  kind as the last gesture, and from there no event emits a gesture, and the handler
  stays suspended, as long as no tracking-id event arrives while the finger count is 0.
  A tracking-id event that arrives while the finger count is 0 (on a slot of the array)
  clears the suspended flag and resets the last gesture to UNKNOWN, so that the same
  kind of gesture can be emitted again after a retouch.
\<close>

theorem C4_suspended_until_retouch:
  "(handleEvent clk k e h = Inr (h1, Some g, k1) \<longrightarrow>
      suspend h1 \<and> lastGesture h1 = GestureType g
      \<and> (sameEpoch clk k1 h1 es \<longrightarrow>
           fst (run clk k1 h1 es) = []
           \<and> (\<forall>h2 k2. snd (run clk k1 h1 es) = Inr (h2, k2) \<longrightarrow> suspend h2)))
   \<and> (isTrackingId e \<and> fingerCount h = 0 \<and> inArray (currentSlot h) \<longrightarrow>
        (\<exists>h2 k2. handleEvent clk k e h = Inr (h2, None, k2)
           \<and> \<not> suspend h2 \<and> lastGesture h2 = UNKNOWN))"
proof (intro conjI impI)
  assume a: "handleEvent clk k e h = Inr (h1, Some g, k1)"
  from handleEvent_emits [OF a] show "suspend h1" "lastGesture h1 = GestureType g" by simp_all
next
  assume a: "handleEvent clk k e h = Inr (h1, Some g, k1)" and b: "sameEpoch clk k1 h1 es"
  from handleEvent_emits [OF a] have "suspend h1" by simp
  from run_suspended [OF this b] show "fst (run clk k1 h1 es) = []"
    "\<forall>h2 k2. snd (run clk k1 h1 es) = Inr (h2, k2) \<longrightarrow> suspend h2" by simp_all
next
  assume a: "isTrackingId e \<and> fingerCount h = 0 \<and> inArray (currentSlot h)"
  then have "isTrackingId e" "inArray (currentSlot h)" "fingerCount h = 0" by simp_all
  from handleEvent_tracking [OF this(1,2), of clk k] this(3)
  show "\<exists>h2 k2. handleEvent clk k e h = Inr (h2, None, k2)
           \<and> \<not> suspend h2 \<and> lastGesture h2 = UNKNOWN"
    by auto
qed


theorem C4_suspended_until_retouch_witness:
  "handleEvent tick (readsAfter tick (newEventHandler [2 \<mapsto> True]) (butlast twoFingerSwipe))
       reportEvent (handlerAfter tick (newEventHandler [2 \<mapsto> True]) (butlast twoFingerSwipe))
     = Inr (handlerAfter tick (newEventHandler [2 \<mapsto> True]) twoFingerSwipe, Some swipeRight2,
            readsAfter tick (newEventHandler [2 \<mapsto> True]) twoFingerSwipe)
   \<and> sameEpoch tick (readsAfter tick (newEventHandler [2 \<mapsto> True]) twoFingerSwipe)
         (handlerAfter tick (newEventHandler [2 \<mapsto> True]) twoFingerSwipe) keepMoving
   \<and> suspend (handlerAfter tick (newEventHandler [2 \<mapsto> True]) twoFingerSwipe)
   \<and> fst (run tick (readsAfter tick (newEventHandler [2 \<mapsto> True]) twoFingerSwipe)
         (handlerAfter tick (newEventHandler [2 \<mapsto> True]) twoFingerSwipe) keepMoving) = []
   \<and> fst (run tick 0 (newEventHandler [2 \<mapsto> True])
         (twoFingerSwipe @ keepMoving @ liftAll @ twoFingerSwipe)) = [swipeRight2, swipeRight2]"
proof -
  let ?h0 = "newEventHandler [2 \<mapsto> True]"
  let ?hM = "handlerAfter tick ?h0 (butlast twoFingerSwipe)"
  let ?kM = "readsAfter tick ?h0 (butlast twoFingerSwipe)"
  let ?hS = "handlerAfter tick ?h0 twoFingerSwipe"
  let ?kS = "readsAfter tick ?h0 twoFingerSwipe"
  have emit: "handleEvent tick ?kM reportEvent ?hM = Inr (?hS, Some swipeRight2, ?kS)"
    by (simp add: twoFingerSwipe_def swipeRight2_def eval_defs run_eval getDirection_buckets
          getAngle_right del: run.simps(2) cong: case_prod_weak_cong let_weak_cong)
  have epoch: "sameEpoch tick ?kS ?hS keepMoving"
    by (simp add: twoFingerSwipe_def keepMoving_def eval_defs run_eval getDirection_buckets
          getAngle_right del: run.simps(2) cong: case_prod_weak_cong let_weak_cong)
  have again: "fst (run tick 0 ?h0 (twoFingerSwipe @ keepMoving @ liftAll @ twoFingerSwipe))
                 = [swipeRight2, swipeRight2]"
    by (simp add: twoFingerSwipe_def keepMoving_def liftAll_def swipeRight2_def eval_defs run_eval
          getDirection_buckets getAngle_right del: run.simps(2)
          cong: case_prod_weak_cong let_weak_cong)
  from C4_suspended_until_retouch [where clk = tick and k = ?kM and e = reportEvent and h = ?hM
      and ?h1.0 = ?hS and g = swipeRight2 and ?k1.0 = ?kS and es = keepMoving] emit epoch
  have "suspend ?hS \<and> fst (run tick ?kS ?hS keepMoving) = []" by blast
  with emit epoch again show ?thesis by blast
qed


text \<open>
  C10. The current slot set by a slot-select event stays through every later event that
  is not a slot-select (frame reports, finger lifts, position updates), in any frame:
  after such events the current slot is still the selected one, a position or
  tracking-id update then applies to the finger of that slot and to no other, and the
  event leaves the current slot as it is unless it is a slot-select itself.
\<close>

theorem C10_current_slot_persists:
  assumes "isSlotSelect e0" and "\<forall>e\<in>set es. \<not> isSlotSelect e"
    and "snd (run clk k h (e0 # es)) = Inr (h1, k1)"
  shows "currentSlot h1 = Value e0
    \<and> (isPositionX e \<and> inArray (Value e0) \<longrightarrow>
         handleEvent clk k1 e h1 =
           Inr (h1\<lparr>fingers := (fingers h1)(nat (Value e0) :=
                  setPositionX (Value e) (fingers h1 (nat (Value e0))))\<rparr>, None, k1))
    \<and> (isPositionY e \<and> inArray (Value e0) \<longrightarrow>
         handleEvent clk k1 e h1 =
           Inr (h1\<lparr>fingers := (fingers h1)(nat (Value e0) :=
                  setPositionY (Value e) (fingers h1 (nat (Value e0))))\<rparr>, None, k1))
    \<and> (isTrackingId e \<and> inArray (Value e0) \<longrightarrow>
         (\<exists>h2 k2. handleEvent clk k1 e h1 = Inr (h2, None, k2)
            \<and> (\<forall>i. IsActive (fingers h2 i) =
                    (if i = nat (Value e0) then Value e \<noteq> - 1 else IsActive (fingers h1 i)))))
    \<and> (\<forall>h2 out k2. handleEvent clk k1 e h1 = Inr (h2, out, k2) \<longrightarrow>
           currentSlot h2 = (if isSlotSelect e then Value e else Value e0))"
proof -
  from assms(1,3) have "snd (run clk k (h\<lparr>currentSlot := Value e0\<rparr>) es) = Inr (h1, k1)"
    by (simp add: handleEvent_slot split_beta)
  from run_currentSlot [OF assms(2) this] have c: "currentSlot h1 = Value e0" by simp
  have x: "isPositionX e \<and> inArray (Value e0) \<longrightarrow>
         handleEvent clk k1 e h1 =
           Inr (h1\<lparr>fingers := (fingers h1)(nat (Value e0) :=
                  setPositionX (Value e) (fingers h1 (nat (Value e0))))\<rparr>, None, k1)"
    using handleEvent_positionX [of e h1 clk k1] c by simp
  have y: "isPositionY e \<and> inArray (Value e0) \<longrightarrow>
         handleEvent clk k1 e h1 =
           Inr (h1\<lparr>fingers := (fingers h1)(nat (Value e0) :=
                  setPositionY (Value e) (fingers h1 (nat (Value e0))))\<rparr>, None, k1)"
    using handleEvent_positionY [of e h1 clk k1] c by simp
  have t: "isTrackingId e \<and> inArray (Value e0) \<longrightarrow>
         (\<exists>h2 k2. handleEvent clk k1 e h1 = Inr (h2, None, k2)
            \<and> (\<forall>i. IsActive (fingers h2 i) =
                    (if i = nat (Value e0) then Value e \<noteq> - 1 else IsActive (fingers h1 i))))"
  proof
    assume a: "isTrackingId e \<and> inArray (Value e0)"
    then have "inArray (currentSlot h1)" using c by simp
    from handleEvent_tracking [OF conjunct1 [OF a] this, of clk k1] c
    show "\<exists>h2 k2. handleEvent clk k1 e h1 = Inr (h2, None, k2)
            \<and> (\<forall>i. IsActive (fingers h2 i) =
                    (if i = nat (Value e0) then Value e \<noteq> - 1 else IsActive (fingers h1 i)))"
      by auto
  qed
  have s: "\<forall>h2 out k2. handleEvent clk k1 e h1 = Inr (h2, out, k2) \<longrightarrow>
           currentSlot h2 = (if isSlotSelect e then Value e else Value e0)"
  proof (intro allI impI)
    fix h2 out k2
    assume r: "handleEvent clk k1 e h1 = Inr (h2, out, k2)"
    show "currentSlot h2 = (if isSlotSelect e then Value e else Value e0)"
    proof (cases "isSlotSelect e")
      case True
      with r handleEvent_slot [OF True, of clk k1 h1] show ?thesis by auto
    next
      case False
      from handleEvent_currentSlot [OF r False] c False show ?thesis by simp
    qed
  qed
  from c x y t s show ?thesis by blast
qed

theorem C10_current_slot_persists_witness:
  "isSlotSelect (slotEvent 1) \<and> list_all (\<lambda>e. \<not> isSlotSelect e) slotOneEvents
   \<and> isPositionX (posXEvent 100) \<and> inArray 1
   \<and> currentSlot (handlerAfter tick (newEventHandler [2 \<mapsto> True]) (slotEvent 1 # slotOneEvents)) = 1
   \<and> LastX (fingers (handlerAfter tick (newEventHandler [2 \<mapsto> True])
        (slotEvent 1 # slotOneEvents @ [posXEvent 100])) 1) = 100
   \<and> LastX (fingers (handlerAfter tick (newEventHandler [2 \<mapsto> True])
        (slotEvent 1 # slotOneEvents @ [posXEvent 100])) 0) = 0"
proof -
  let ?h = "newEventHandler [2 \<mapsto> True]"
  have r: "snd (run tick 0 ?h (slotEvent 1 # slotOneEvents))
             = Inr (handlerAfter tick ?h (slotEvent 1 # slotOneEvents),
                    readsAfter tick ?h (slotEvent 1 # slotOneEvents))"
    by (simp add: handlerAfter_def readsAfter_def slotOneEvents_def eval_defs
          cong: case_prod_weak_cong let_weak_cong)
  have s: "isSlotSelect (slotEvent 1)" by (simp add: event_defs kind_defs)
  have n: "\<forall>e\<in>set slotOneEvents. \<not> isSlotSelect e"
    by (simp add: slotOneEvents_def event_defs kind_defs code_defs)
  from C10_current_slot_persists [OF s n r, of "posXEvent 100"]
  have "currentSlot (handlerAfter tick ?h (slotEvent 1 # slotOneEvents)) = 1"
    by (simp add: event_defs)
  then show ?thesis
    by (simp add: handlerAfter_def slotOneEvents_def eval_defs
          cong: case_prod_weak_cong let_weak_cong)
qed

lemma hasSwiped_reads: "k \<le> snd (hasSwiped clk k T f)"
  by (simp add: hasSwiped_def)


lemma collectPositions_None:
  "collectPositions clk k fs is sp ep = (None, k1) \<Longrightarrow>
     \<exists>i\<in>set is. IsActive (fs i) \<and> (\<exists>j\<ge>k. \<not> fst (hasSwiped clk j DIST_OTHER (fs i)))"
proof (induction "is" arbitrary: k sp ep)
  case Nil
  then show ?case by simp
next
  case (Cons i "is")
  show ?case
  proof (cases "IsActive (fs i)")
    case False
    with Cons.prems have "collectPositions clk k fs is sp ep = (None, k1)" by simp
    from Cons.IH [OF this] show ?thesis by auto
  next
    case True
    obtain sw k2 where hs: "hasSwiped clk k DIST_OTHER (fs i) = (sw, k2)"
      by (cases "hasSwiped clk k DIST_OTHER (fs i)")
    show ?thesis
    proof (cases sw)
      case False
      with hs have "\<not> fst (hasSwiped clk k DIST_OTHER (fs i))" by simp
      with True show ?thesis by auto
    next
      case sw: True
      with Cons.prems True hs
      have "collectPositions clk k2 fs is (sp @ [(FirstX (fs i), FirstY (fs i))])
              (ep @ [(LastX (fs i), LastY (fs i))]) = (None, k1)"
        by simp
      from Cons.IH [OF this] obtain i' j where
        "i' \<in> set is" "IsActive (fs i')" "k2 \<le> j" "\<not> fst (hasSwiped clk j DIST_OTHER (fs i'))"
        by auto
      moreover have "k \<le> k2" using hasSwiped_reads [of k clk DIST_OTHER "fs i"] hs by simp
      ultimately show ?thesis by (auto intro: order_trans)
    qed
  qed
qed


lemmas dir_eval = getDirection_buckets getAngle_right getAngle_left getAngle_up getAngle_down


lemmas trace_eval = eval_defs run_eval dir_eval




lemma resetEach_slots:
  "fst (resetEach clk k slots fs) =
     (\<lambda>i. if i \<in> set slots
          then (fs i)\<lparr>ActivationTime := clk (k + i), HasPositionX := False, HasPositionY := False\<rparr>
          else fs i)"
proof -
  have e: "k + 3 = Suc (Suc (Suc k))" "k + 4 = Suc (Suc (Suc (Suc k)))"
    by simp_all
  show ?thesis
    by (intro ext) (simp add: slots_def reset_def e)
qed


lemma detectGesture_radial_unknown:
  assumes "configuredFingers h (fingerCount h) \<noteq> None" and "2 \<le> fingerCount h"
    and "CHECK_DELAY * Millisecond \<le> clk k - checkTimer h"
    and "swipePass clk (Suc k) (fingers h) slots False UNKNOWN = (PassDone False g, k2)"
    and "calculateGesture clk k2 h = Inr (UNKNOWN, k3)"
  shows "detectGesture clk k h =
     Inr (h\<lparr>fingers := fst (resetEach clk k3 slots (fingers h)), checkTimer := clk (k3 + 5)\<rparr>,
          None, k3 + 6)"
proof -
  from assms(1) obtain y where y: "configuredFingers h (fingerCount h) = Some y" by auto
  from assms(2) have c: "\<not> fingerCount h < 2" by simp
  from assms(3) have t: "\<not> clk k - checkTimer h < CHECK_DELAY * Millisecond" by simp
  show ?thesis
    by (simp add: detectGesture_def Let_def y c t assms(4,5) resetFingers_eq)
qed


lemma calculateGesture_unknown:
  assumes "calculateGesture clk k2 h = Inr (UNKNOWN, k3)"
  shows "\<exists>i\<in>set slots. IsActive (fingers h i)
           \<and> (\<exists>j\<ge>k2. \<not> fst (hasSwiped clk j DIST_OTHER (fingers h i)))"
proof -
  obtain r k4 where c: "collectPositions clk k2 (fingers h) slots [] [] = (r, k4)"
    by (cases "collectPositions clk k2 (fingers h) slots [] []")
  have "r = None"
  proof (cases r)
    case None
    then show ?thesis .
  next
    case (Some p)
    obtain sp ep where p: "p = (sp, ep)" by (cases p)
    from assms c Some p show ?thesis
      by (cases "calculateCircumference sp"; cases "calculateCircumference ep")
         (simp_all add: calculateGesture_def split: if_splits)
  qed
  with c have "collectPositions clk k2 (fingers h) slots [] [] = (None, k4)" by simp
  then show ?thesis by (rule collectPositions_None)
qed


lemma hasSwiped_unmoved:
  "getDistance f \<le> T \<Longrightarrow> \<not> fst (hasSwiped clk k T f)"
  by (simp add: hasSwiped_def)

lemma collectPositions_unmoved:
  "\<exists>i\<in>set is. IsActive (fs i) \<and> getDistance (fs i) \<le> DIST_OTHER \<Longrightarrow>
     \<exists>k1. collectPositions clk k fs is sp ep = (None, k1)"
proof (induction "is" arbitrary: k sp ep)
  case Nil
  then show ?case by simp
next
  case (Cons i "is")
  show ?case
  proof (cases "IsActive (fs i)")
    case False
    with Cons.prems have "\<exists>j\<in>set is. IsActive (fs j) \<and> getDistance (fs j) \<le> DIST_OTHER"
      by auto
    from Cons.IH [OF this, of k sp ep] False show ?thesis by simp
  next
    case True
    obtain sw k2 where hs: "hasSwiped clk k DIST_OTHER (fs i) = (sw, k2)"
      by (cases "hasSwiped clk k DIST_OTHER (fs i)")
    show ?thesis
    proof (cases sw)
      case False
      with True hs show ?thesis by simp
    next
      case sw: True
      with hs have "fst (hasSwiped clk k DIST_OTHER (fs i))" by simp
      with hasSwiped_unmoved [of "fs i" DIST_OTHER clk k]
      have "\<not> getDistance (fs i) \<le> DIST_OTHER" by blast
      with Cons.prems have "\<exists>j\<in>set is. IsActive (fs j) \<and> getDistance (fs j) \<le> DIST_OTHER"
        by auto
      from Cons.IH [OF this, of k2 "sp @ [(FirstX (fs i), FirstY (fs i))]"
          "ep @ [(LastX (fs i), LastY (fs i))]"] True hs sw
      show ?thesis by simp
    qed
  qed
qed

lemma calculateGesture_unmoved:
  assumes "\<exists>i\<in>set slots. IsActive (fingers h i) \<and> getDistance (fingers h i) \<le> DIST_OTHER"
  shows "\<exists>k3. calculateGesture clk k2 h = Inr (UNKNOWN, k3)"
proof -
  from collectPositions_unmoved [OF assms, of clk k2 "[]" "[]"]
  obtain k3 where "collectPositions clk k2 (fingers h) slots [] [] = (None, k3)" ..
  then have "calculateGesture clk k2 h = Inr (UNKNOWN, k3)"
    by (simp add: calculateGesture_def)
  then show ?thesis ..
qed


text \<open>
  C3 (as amended). When the radial pass runs (the handler is configured for the finger
  count, the delay since the last reset has passed and the swipe pass ended without a
  swipe) and some active finger has not moved more than 500 units from its first
  position, \<open>calculateGesture\<close> returns UNKNOWN and the detection emits no gesture.
  The suspended flag, the last gesture, the finger count, the current slot and the
  configuration stay as they are; but the state does change: every finger is reset (the
  position flags are cleared and the activation time is restamped) and the reset timer
  is restamped.
\<close>

theorem C3_radial_unknown_resets:
  assumes "configuredFingers h (fingerCount h) \<noteq> None" and "2 \<le> fingerCount h"
    and "CHECK_DELAY * Millisecond \<le> clk k - checkTimer h"
    and "swipePass clk (Suc k) (fingers h) slots False UNKNOWN = (PassDone False g, k2)"
    and "\<exists>i\<in>set slots. IsActive (fingers h i) \<and> getDistance (fingers h i) \<le> DIST_OTHER"
  shows "\<exists>h1 k3. calculateGesture clk k2 h = Inr (UNKNOWN, k3)
     \<and> detectGesture clk k h = Inr (h1, None, k3 + 6)
     \<and> suspend h1 = suspend h \<and> lastGesture h1 = lastGesture h
     \<and> fingerCount h1 = fingerCount h \<and> currentSlot h1 = currentSlot h
     \<and> configuredFingers h1 = configuredFingers h
     \<and> checkTimer h1 = clk (k3 + 5)
     \<and> (\<forall>i\<in>set slots. fingers h1 i =
           (fingers h i)\<lparr>ActivationTime := clk (k3 + i), HasPositionX := False,
                          HasPositionY := False\<rparr>)"
proof -
  from calculateGesture_unmoved [OF assms(5), of clk k2]
  obtain k3 where c: "calculateGesture clk k2 h = Inr (UNKNOWN, k3)" ..
  let ?h1 = "h\<lparr>fingers := fst (resetEach clk k3 slots (fingers h)), checkTimer := clk (k3 + 5)\<rparr>"
  have d: "detectGesture clk k h = Inr (?h1, None, k3 + 6)"
    using assms(1-4) c by (rule detectGesture_radial_unknown)
  have f: "\<forall>i\<in>set slots. fingers ?h1 i =
           (fingers h i)\<lparr>ActivationTime := clk (k3 + i), HasPositionX := False,
                          HasPositionY := False\<rparr>"
    by (simp add: resetEach_slots)
  have "calculateGesture clk k2 h = Inr (UNKNOWN, k3)
     \<and> detectGesture clk k h = Inr (?h1, None, k3 + 6)
     \<and> suspend ?h1 = suspend h \<and> lastGesture ?h1 = lastGesture h
     \<and> fingerCount ?h1 = fingerCount h \<and> currentSlot ?h1 = currentSlot h
     \<and> configuredFingers ?h1 = configuredFingers h
     \<and> checkTimer ?h1 = clk (k3 + 5)
     \<and> (\<forall>i\<in>set slots. fingers ?h1 i =
           (fingers h i)\<lparr>ActivationTime := clk (k3 + i), HasPositionX := False,
                          HasPositionY := False\<rparr>)"
  proof (intro conjI)
    show "calculateGesture clk k2 h = Inr (UNKNOWN, k3)" by (rule c)
    show "detectGesture clk k h = Inr (?h1, None, k3 + 6)" by (rule d)
    show "\<forall>i\<in>set slots. fingers ?h1 i =
           (fingers h i)\<lparr>ActivationTime := clk (k3 + i), HasPositionX := False,
                          HasPositionY := False\<rparr>" by (rule f)
  qed simp_all
  then show ?thesis by blast
qed


theorem C3_radial_unknown_resets_witness:
  "configuredFingers (handlerAfter tick (newEventHandler [3 \<mapsto> True]) threeFingersMixed)
       (fingerCount (handlerAfter tick (newEventHandler [3 \<mapsto> True]) threeFingersMixed)) \<noteq> None
   \<and> 2 \<le> fingerCount (handlerAfter tick (newEventHandler [3 \<mapsto> True]) threeFingersMixed)
   \<and> CHECK_DELAY * Millisecond
        \<le> tick 21 - checkTimer (handlerAfter tick (newEventHandler [3 \<mapsto> True]) threeFingersMixed)
   \<and> swipePass tick (Suc 21)
       (fingers (handlerAfter tick (newEventHandler [3 \<mapsto> True]) threeFingersMixed))
       slots False UNKNOWN = (PassDone False SWIPE_RIGHT, 24)
   \<and> 2 \<in> set slots
   \<and> IsActive (fingers (handlerAfter tick (newEventHandler [3 \<mapsto> True]) threeFingersMixed) 2)
   \<and> getDistance (fingers (handlerAfter tick (newEventHandler [3 \<mapsto> True]) threeFingersMixed) 2)
        = 0
   \<and> (0 :: int) \<le> DIST_OTHER
   \<and> calculateGesture tick 24 (handlerAfter tick (newEventHandler [3 \<mapsto> True]) threeFingersMixed)
       = Inr (UNKNOWN, 27)
   \<and> (\<exists>h1. detectGesture tick 21
               (handlerAfter tick (newEventHandler [3 \<mapsto> True]) threeFingersMixed)
             = Inr (h1, None, 33)
          \<and> checkTimer h1 = tick 32 \<and> \<not> suspend h1 \<and> lastGesture h1 = UNKNOWN
          \<and> \<not> HasPositionX (fingers h1 0) \<and> \<not> HasPositionY (fingers h1 0))"
proof -
  let ?b = "handlerAfter tick (newEventHandler [3 \<mapsto> True]) threeFingersMixed"
  have g1: "configuredFingers ?b (fingerCount ?b) \<noteq> None"
    by (simp add: threeFingersMixed_def trace_eval del: run.simps(2)
          cong: case_prod_weak_cong let_weak_cong)
  have g2: "2 \<le> fingerCount ?b"
    by (simp add: threeFingersMixed_def trace_eval del: run.simps(2)
          cong: case_prod_weak_cong let_weak_cong)
  have g3: "CHECK_DELAY * Millisecond \<le> tick 21 - checkTimer ?b"
    by (simp add: threeFingersMixed_def trace_eval del: run.simps(2)
          cong: case_prod_weak_cong let_weak_cong)
  have g4: "\<not> suspend ?b"
    by (simp add: threeFingersMixed_def trace_eval del: run.simps(2)
          cong: case_prod_weak_cong let_weak_cong)
  have g5: "lastGesture ?b = UNKNOWN"
    by (simp add: threeFingersMixed_def trace_eval del: run.simps(2)
          cong: case_prod_weak_cong let_weak_cong)
  have s: "swipePass tick (Suc 21) (fingers ?b) slots False UNKNOWN = (PassDone False SWIPE_RIGHT, 24)"
    by (simp add: threeFingersMixed_def trace_eval del: run.simps(2)
          cong: case_prod_weak_cong let_weak_cong)
  have m: "2 \<in> set slots" "0 \<in> set slots"
    by (simp_all add: slots_def)
  have a: "IsActive (fingers ?b 2)"
    by (simp add: threeFingersMixed_def trace_eval del: run.simps(2)
          cong: case_prod_weak_cong let_weak_cong)
  have d: "getDistance (fingers ?b 2) = 0"
    by (simp add: threeFingersMixed_def trace_eval del: run.simps(2)
          cong: case_prod_weak_cong let_weak_cong)
  have o: "(0 :: int) \<le> DIST_OTHER"
    by (simp add: DIST_OTHER_def)
  have c: "calculateGesture tick 24 ?b = Inr (UNKNOWN, 27)"
    by (simp add: threeFingersMixed_def trace_eval del: run.simps(2)
          cong: case_prod_weak_cong let_weak_cong)
  from d o have d': "getDistance (fingers ?b 2) \<le> DIST_OTHER" by simp
  from m(1) a d' have u: "\<exists>i\<in>set slots. IsActive (fingers ?b i) \<and> getDistance (fingers ?b i) \<le> DIST_OTHER"
    by blast
  from C3_radial_unknown_resets [OF g1 g2 g3 s u]
  obtain h1 k3 where h1: "calculateGesture tick 24 ?b = Inr (UNKNOWN, k3)"
    "detectGesture tick 21 ?b = Inr (h1, None, k3 + 6)"
    "suspend h1 = suspend ?b" "lastGesture h1 = lastGesture ?b" "checkTimer h1 = tick (k3 + 5)"
    "\<forall>i\<in>set slots. fingers h1 i =
           (fingers ?b i)\<lparr>ActivationTime := tick (k3 + i), HasPositionX := False,
                          HasPositionY := False\<rparr>"
    by blast
  from h1(1) c have k3: "k3 = 27" by simp
  from h1(2) k3 have e: "detectGesture tick 21 ?b = Inr (h1, None, 33)" by simp
  from h1(5) k3 have t: "checkTimer h1 = tick 32" by simp
  from h1(3) g4 have n: "\<not> suspend h1" by blast
  from h1(4) g5 have l: "lastGesture h1 = UNKNOWN" by (rule trans)
  from h1(6) m(2) have "fingers h1 0 =
           (fingers ?b 0)\<lparr>ActivationTime := tick (k3 + 0), HasPositionX := False,
                          HasPositionY := False\<rparr>" by (rule bspec)
  then have p: "\<not> HasPositionX (fingers h1 0)" "\<not> HasPositionY (fingers h1 0)" by simp_all
  from e t n l p
  have "\<exists>h1. detectGesture tick 21 ?b = Inr (h1, None, 33)
          \<and> checkTimer h1 = tick 32 \<and> \<not> suspend h1 \<and> lastGesture h1 = UNKNOWN
          \<and> \<not> HasPositionX (fingers h1 0) \<and> \<not> HasPositionY (fingers h1 0)"
    by blast
  with g1 g2 g3 s m(1) a d o c show ?thesis by blast
qed


text \<open>
  C3 as stated fails: with three fingers of which one swiped right, one swiped left and
  one did not move, the swipe pass ends without a swipe, the radial pass returns UNKNOWN,
  and the frame report changes the handler: the reset timer is restamped and the
  fingers lose their latched positions.
\<close>

theorem C3_counterexample:
  "swipePass tick 22
       (fingers (handlerAfter tick (newEventHandler [3 \<mapsto> True]) threeFingersMixed))
       slots False UNKNOWN = (PassDone False SWIPE_RIGHT, 24)
   \<and> calculateGesture tick 24 (handlerAfter tick (newEventHandler [3 \<mapsto> True]) threeFingersMixed)
       = Inr (UNKNOWN, 27)
   \<and> handleEvent tick 21 reportEvent
         (handlerAfter tick (newEventHandler [3 \<mapsto> True]) threeFingersMixed)
       = Inr (handlerAfter tick (newEventHandler [3 \<mapsto> True]) (threeFingersMixed @ [reportEvent]),
              None, 33)
   \<and> handlerAfter tick (newEventHandler [3 \<mapsto> True]) (threeFingersMixed @ [reportEvent])
       \<noteq> handlerAfter tick (newEventHandler [3 \<mapsto> True]) threeFingersMixed
   \<and> checkTimer (handlerAfter tick (newEventHandler [3 \<mapsto> True]) threeFingersMixed)
       = 2000000000
   \<and> checkTimer (handlerAfter tick (newEventHandler [3 \<mapsto> True])
         (threeFingersMixed @ [reportEvent])) = 3200000000
   \<and> hasPosition (fingers (handlerAfter tick (newEventHandler [3 \<mapsto> True]) threeFingersMixed) 0)
   \<and> \<not> hasPosition (fingers (handlerAfter tick (newEventHandler [3 \<mapsto> True])
           (threeFingersMixed @ [reportEvent])) 0)"
proof -
  let ?b = "handlerAfter tick (newEventHandler [3 \<mapsto> True]) threeFingersMixed"
  let ?a = "handlerAfter tick (newEventHandler [3 \<mapsto> True]) (threeFingersMixed @ [reportEvent])"
  have s: "swipePass tick 22 (fingers ?b) slots False UNKNOWN = (PassDone False SWIPE_RIGHT, 24)"
    by (simp add: threeFingersMixed_def trace_eval del: run.simps(2)
          cong: case_prod_weak_cong let_weak_cong)
  have c: "calculateGesture tick 24 ?b = Inr (UNKNOWN, 27)"
    by (simp add: threeFingersMixed_def trace_eval del: run.simps(2)
          cong: case_prod_weak_cong let_weak_cong)
  have e: "handleEvent tick 21 reportEvent ?b = Inr (?a, None, 33)"
    by (simp add: threeFingersMixed_def trace_eval del: run.simps(2)
          cong: case_prod_weak_cong let_weak_cong)
  have tb: "checkTimer ?b = 2000000000"
    by (simp add: threeFingersMixed_def trace_eval del: run.simps(2)
          cong: case_prod_weak_cong let_weak_cong)
  have ta: "checkTimer ?a = 3200000000"
    by (simp add: threeFingersMixed_def trace_eval del: run.simps(2)
          cong: case_prod_weak_cong let_weak_cong)
  have pb: "hasPosition (fingers ?b 0)"
    by (simp add: threeFingersMixed_def trace_eval del: run.simps(2)
          cong: case_prod_weak_cong let_weak_cong)
  have pa: "\<not> hasPosition (fingers ?a 0)"
    by (simp add: threeFingersMixed_def trace_eval del: run.simps(2)
          cong: case_prod_weak_cong let_weak_cong)
  have ne: "?a \<noteq> ?b"
  proof
    assume "?a = ?b"
    then have "checkTimer ?a = checkTimer ?b" by (rule arg_cong)
    then show False by (simp only: ta tb)
  qed
  show ?thesis
    using s c e ne tb ta pb pa by (intro conjI) assumption+
qed

lemma getDirection_not_UNKNOWN: "getDirection f \<noteq> UNKNOWN"
  by (simp add: getDirection_buckets)

lemma swipePass_without_slot_zero:
  "0 \<notin> set is \<Longrightarrow>
     fst (swipePass clk k fs is False UNKNOWN) = NotAllSwiped
     \<or> fst (swipePass clk k fs is False UNKNOWN) = PassDone False UNKNOWN"
proof (induction "is" arbitrary: k)
  case Nil
  show ?case by simp
next
  case (Cons i "is")
  then have i: "i \<noteq> 0" and r: "0 \<notin> set is" by simp_all
  show ?case
  proof (cases "IsActive (fs i)")
    case False
    with Cons.IH [OF r, of k] show ?thesis by simp
  next
    case True
    obtain sw k1 where h: "hasSwiped clk k DIST_SWIPE (fs i) = (sw, k1)"
      by (cases "hasSwiped clk k DIST_SWIPE (fs i)")
    with True i show ?thesis
      by (cases sw) (simp_all add: getDirection_not_UNKNOWN)
  qed
qed

lemma swipe_needs_slot_zero:
  assumes "\<not> IsActive (fs 0)"
  shows "fst (swipePass clk k fs slots False UNKNOWN) \<noteq> PassDone True g"
proof -
  have "swipePass clk k fs slots False UNKNOWN = swipePass clk k fs [1, 2, 3, 4] False UNKNOWN"
    using assms by (simp add: slots_def)
  moreover have "(0::nat) \<notin> set [1, 2, 3, 4]" by simp
  from swipePass_without_slot_zero [OF this, of clk k fs]
  have "fst (swipePass clk k fs [1, 2, 3, 4] False UNKNOWN) \<noteq> PassDone True g" by auto
  ultimately show ?thesis by simp
qed

text \<open>
  C2. The swipe pass records the candidate direction under the test \<open>i == 0\<close>, that
  is from the finger of slot 0 and not from the first active finger. With the fingers on
  slots 1 and 2, both moved 1200 units to the right, each has swiped past the 1100-unit
  threshold in direction SWIPE_RIGHT, yet the pass ends at the first of them with no
  swipe and no candidate, and the frame report emits a spread; the same movement on slots
  0 and 1 emits the swipe to the right. (By \<open>swipe_needs_slot_zero\<close>, no swipe is ever
  found while slot 0 is inactive.)
\<close>

theorem C2_swipe_on_slots_1_2_is_lost:
  "fst (hasSwiped tick 15 DIST_SWIPE
          (fingers (handlerAfter tick (newEventHandler [2 \<mapsto> True]) swipeOnSlots12) 1))
   \<and> fst (hasSwiped tick 15 DIST_SWIPE
          (fingers (handlerAfter tick (newEventHandler [2 \<mapsto> True]) swipeOnSlots12) 2))
   \<and> getDirection (fingers (handlerAfter tick (newEventHandler [2 \<mapsto> True]) swipeOnSlots12) 1)
       = SWIPE_RIGHT
   \<and> getDirection (fingers (handlerAfter tick (newEventHandler [2 \<mapsto> True]) swipeOnSlots12) 2)
       = SWIPE_RIGHT
   \<and> swipePass tick 15
         (fingers (handlerAfter tick (newEventHandler [2 \<mapsto> True]) swipeOnSlots12))
         slots False UNKNOWN = (PassDone False UNKNOWN, 16)
   \<and> fst (run tick 0 (newEventHandler [2 \<mapsto> True]) (swipeOnSlots12 @ [reportEvent])) = [spread2]
   \<and> fst (run tick 0 (newEventHandler [2 \<mapsto> True]) twoFingerSwipe) = [swipeRight2]"
proof -
  let ?h = "handlerAfter tick (newEventHandler [2 \<mapsto> True]) swipeOnSlots12"
  have a: "fst (hasSwiped tick 15 DIST_SWIPE (fingers ?h 1))"
    by (simp add: swipeOnSlots12_def trace_eval del: run.simps(2)
          cong: case_prod_weak_cong let_weak_cong)
  have b: "fst (hasSwiped tick 15 DIST_SWIPE (fingers ?h 2))"
    by (simp add: swipeOnSlots12_def trace_eval del: run.simps(2)
          cong: case_prod_weak_cong let_weak_cong)
  have c: "getDirection (fingers ?h 1) = SWIPE_RIGHT"
    by (simp add: swipeOnSlots12_def trace_eval del: run.simps(2)
          cong: case_prod_weak_cong let_weak_cong)
  have d: "getDirection (fingers ?h 2) = SWIPE_RIGHT"
    by (simp add: swipeOnSlots12_def trace_eval del: run.simps(2)
          cong: case_prod_weak_cong let_weak_cong)
  have e: "swipePass tick 15 (fingers ?h) slots False UNKNOWN = (PassDone False UNKNOWN, 16)"
    by (simp add: swipeOnSlots12_def trace_eval del: run.simps(2)
          cong: case_prod_weak_cong let_weak_cong)
  have f: "fst (run tick 0 (newEventHandler [2 \<mapsto> True]) (swipeOnSlots12 @ [reportEvent]))
             = [spread2]"
    by (simp add: swipeOnSlots12_def spread2_def trace_eval del: run.simps(2)
          cong: case_prod_weak_cong let_weak_cong)
  have g: "fst (run tick 0 (newEventHandler [2 \<mapsto> True]) twoFingerSwipe) = [swipeRight2]"
    by (simp add: twoFingerSwipe_def swipeRight2_def trace_eval del: run.simps(2)
          cong: case_prod_weak_cong let_weak_cong)
  show ?thesis
    using a b c d e f g by (intro conjI) assumption+
qed

end
